theory Spec2Isabelle
  imports Complex_Main
begin

chapter \<open>A shallow embedding of the voice-bot call controller\<close>

text \<open>
  The development follows the converged revision of the repository: the \<open>VoiceBot\<close>
  component with its \<open>useWakeWordDetection\<close> hook (second document of
  \<^verbatim>\<open>src/unnamed/part_004\<close>) and the \<open>useRetellClient\<close> hook with the call guards
  (\<^verbatim>\<open>src/unnamed/part_005\<close>; \<^verbatim>\<open>src/hooks/use-retell-client.ts\<close> holds the same
  \<open>update\<close> listener without the guards).

  Conventions.
  \<^item> Mutable refs (\<open>useRef\<close>) and React state are fields of records; every handler takes
    the record and returns the new one.
  \<^item> A handler created by \<open>useCallback\<close> reads the \<open>state\<close> of the render that created it.
    That captured state is an explicit argument named \<open>state\<close>; the state a functional
    \<open>setState(prev => ...)\<close> receives is the latest one, the field \<open>current\<close> of the
    component.
  \<^item> \<open>uuidv4()\<close>, \<open>new Date()\<close> and \<open>Date.now()\<close> are inputs: arguments \<open>uuid\<close> and \<open>now\<close>
    (milliseconds, an \<open>int\<close>).
  \<^item> A pending \<open>setTimeout\<close> is a field of the record (the timer is armed); the
    callback of the timer is a function of its own, run by the event that fires it.
  \<^item> What a hook does to the outside (callbacks of the component, requests to the SDK,
    toasts) is returned as a list, in program order.
\<close>

section \<open>Strings\<close>

text \<open>
  JavaScript strings are modelled as \<open>string\<close>; a \<open>char\<close> stands for a code unit below
  256. \<open>String.prototype.toLowerCase\<close> is modelled on the letters \<open>A\<close> to \<open>Z\<close>, which is
  all the comparison with the literal \<open>'agent'\<close> can observe. \<open>String.prototype.trim\<close>
  strips the white space and line terminators of ECMAScript that lie below 256: TAB,
  LF, VT, FF, CR, SPACE and NBSP.
\<close>

definition toLowerCase_char :: "char \<Rightarrow> char" where
  "toLowerCase_char c =
     (case map_of (zip ''ABCDEFGHIJKLMNOPQRSTUVWXYZ'' ''abcdefghijklmnopqrstuvwxyz'') c of
        Some l \<Rightarrow> l
      | None \<Rightarrow> c)"

definition toLowerCase :: "string \<Rightarrow> string" where
  "toLowerCase s = map toLowerCase_char s"

definition isWhiteSpace :: "char \<Rightarrow> bool" where
  "isWhiteSpace c =
     (c = CHR 0x09 \<or> c = CHR 0x0A \<or> c = CHR 0x0B \<or> c = CHR 0x0C \<or> c = CHR 0x0D
      \<or> c = CHR 0x20 \<or> c = CHR 0xA0)"

definition trim :: "string \<Rightarrow> string" where
  "trim s = rev (dropWhile isWhiteSpace (rev (dropWhile isWhiteSpace s)))"

section \<open>Data model (\<open>Message\<close>, \<open>VoiceBotState\<close>)\<close>

datatype MessageType = Response | Transcription | System

text \<open>
  \<open>interface Message\<close>: \<open>role\<close> and \<open>isComplete\<close> are optional fields, so they are
  options here; \<open>!m.isComplete\<close> holds for \<open>undefined\<close> and for \<open>false\<close>.
\<close>

record Message =
  id_msg :: string
  type :: MessageType
  role :: "string option"
  content :: string
  timestamp :: int
  isComplete :: "bool option"

definition notComplete :: "Message \<Rightarrow> bool" where
  "notComplete m = (isComplete m \<noteq> Some True)"

datatype CallStatus = Idle | Ongoing | Ended | Error

record VoiceBotState =
  isCallActive :: bool
  isLoading :: bool
  error :: "string option"
  callStatus :: CallStatus
  messages :: "Message list"
  isListeningForWakeWord :: bool
  liveTranscript :: string
  liveTranscriptRole :: "string option"

text \<open>The argument of \<open>useState\<close> in \<open>VoiceBot\<close>.\<close>

definition initialState :: VoiceBotState where
  "initialState =
     \<lparr>isCallActive = False, isLoading = False, error = None, callStatus = Idle,
      messages = [], isListeningForWakeWord = False, liveTranscript = [],
      liveTranscriptRole = None\<rparr>"

definition WAKE_WORD :: string where
  "WAKE_WORD = ''hey assistant''"

section \<open>The message log (\<open>onTranscriptUpdate\<close>, \<open>onResponseUpdate\<close>, \<open>onSentenceComplete\<close>)\<close>

text \<open>\<open>Array.prototype.findIndex\<close>: the first index whose element satisfies the predicate,
  \<open>None\<close> for the \<open>-1\<close> of JavaScript.\<close>

fun findIndex :: "('a \<Rightarrow> bool) \<Rightarrow> 'a list \<Rightarrow> nat option" where
  "findIndex P [] = None"
| "findIndex P (x # xs) = (if P x then Some 0 else map_option Suc (findIndex P xs))"

text \<open>
  \<^verbatim>\<open>onTranscriptUpdate: (role, content) => setState(prev => { ... })\<close>.
  The search runs over the reversed copy of the log, so \<open>actualIndex\<close> is the position of
  the last incomplete message of that role.
\<close>

definition onTranscriptUpdate ::
  "string \<Rightarrow> string \<Rightarrow> string \<Rightarrow> int \<Rightarrow> VoiceBotState \<Rightarrow> VoiceBotState" where
  "onTranscriptUpdate role' content' uuid now prev =
     (case findIndex (\<lambda>m. role m = Some role' \<and> notComplete m) (rev (messages prev)) of
        None \<Rightarrow>
          prev\<lparr>messages := messages prev @
            [\<lparr>id_msg = uuid, type = Transcription, role = Some role', content = content',
              timestamp = now, isComplete = Some False\<rparr>]\<rparr>
      | Some lastIncompleteMessageIndex \<Rightarrow>
          (let actualIndex = length (messages prev) - 1 - lastIncompleteMessageIndex;
               updatedMessages = messages prev
           in prev\<lparr>messages :=
                updatedMessages[actualIndex := (updatedMessages ! actualIndex)\<lparr>content := content'\<rparr>]\<rparr>))"

definition onResponseUpdate :: "string \<Rightarrow> string \<Rightarrow> int \<Rightarrow> VoiceBotState \<Rightarrow> VoiceBotState" where
  "onResponseUpdate content' uuid now prev =
     prev\<lparr>messages := messages prev @
       [\<lparr>id_msg = uuid, type = Response, role = Some ''assistant'', content = content',
         timestamp = now, isComplete = Some True\<rparr>]\<rparr>"

definition onSentenceComplete :: "VoiceBotState \<Rightarrow> VoiceBotState" where
  "onSentenceComplete prev =
     (case findIndex notComplete (messages prev) of
        None \<Rightarrow> prev
      | Some lastIncompleteMessageIndex \<Rightarrow>
          (let updatedMessages = messages prev
           in prev\<lparr>messages :=
                updatedMessages[lastIncompleteMessageIndex :=
                  (updatedMessages ! lastIncompleteMessageIndex)\<lparr>isComplete := Some True\<rparr>]\<rparr>))"

section \<open>The call hook \<open>useRetellClient\<close> (\<^verbatim>\<open>src/unnamed/part_005\<close>)\<close>

definition MIN_CALL_DURATION_MS :: int where
  "MIN_CALL_DURATION_MS = 10000"

definition INACTIVITY_TIMEOUT_MS :: int where
  "INACTIVITY_TIMEOUT_MS = 300000"

definition DEBOUNCE_TIME_MS :: int where
  "DEBOUNCE_TIME_MS = 500"

text \<open>
  What the hook does to the outside, in program order: the callbacks of
  \<open>RetellClientOptions\<close>, and the requests to the SDK client and to the network.
\<close>

datatype Effect =
    OnCallStarted
  | OnCallEnded
  | OnError string
  | OnLoading bool
  | OnTranscriptUpdate string string
  | OnResponseUpdate string
  | OnSentenceComplete
  | RemoveAllListeners
  | StopCall
  | FetchCreateCall
  | StartCallSdk

text \<open>The callback a pending \<open>operationTimeoutRef\<close> timer will run.\<close>

datatype Operation = StartOperation | EndOperation

text \<open>
  The refs of the hook. \<open>clientRef\<close> says whether \<open>clientRef.current\<close> holds a client.
  \<open>operationTimeoutRef\<close> and \<open>inactivityTimerRef\<close> say whether the timer is armed (in the
  source the ref keeps the id of a timer that has fired; clearing such an id does
  nothing). The three counters are the \<open>async\<close> bodies suspended at an \<open>await\<close>: on the
  \<open>fetch\<close>, on \<open>client.startCall\<close> and on \<open>client.stopCall\<close>.
\<close>

record RetellClient =
  clientRef :: bool
  isInitialized :: bool
  callStartTimeRef :: "int option"
  lastActivityTimeRef :: "int option"
  inactivityTimerRef :: bool
  isEndingCallRef :: bool
  isStartingCallRef :: bool
  operationTimeoutRef :: "Operation option"
  awaitingFetch :: nat
  awaitingStartCall :: nat
  awaitingStopCall :: nat

text \<open>\<open>callStartTimeRef.current && ...\<close>: a number is truthy unless it is \<open>0\<close>.\<close>

definition truthyTime :: "int option \<Rightarrow> bool" where
  "truthyTime t = (case t of None \<Rightarrow> False | Some n \<Rightarrow> n \<noteq> 0)"

text \<open>
  \<open>cleanupClient\<close>. An exception of \<open>removeAllListeners\<close> or \<open>stopCall\<close> is caught and
  logged there, and the \<open>finally\<close> clears the client either way.
\<close>

definition cleanupClient :: "RetellClient \<Rightarrow> RetellClient \<times> Effect list" where
  "cleanupClient c =
     (let c1 = c\<lparr>operationTimeoutRef := None, inactivityTimerRef := False\<rparr>;
          out = (if clientRef c1
                 then RemoveAllListeners # (if truthyTime (callStartTimeRef c1) then [StopCall] else [])
                 else [])
      in (c1\<lparr>clientRef := False, callStartTimeRef := None, lastActivityTimeRef := None,
              isEndingCallRef := False, isStartingCallRef := False\<rparr>, out))"

definition initializeClient :: "RetellClient \<Rightarrow> RetellClient \<times> Effect list" where
  "initializeClient c =
     (let (c1, out) = cleanupClient c
      in (c1\<lparr>clientRef := True, isInitialized := True\<rparr>, out))"

definition resetInactivityTimer :: "int \<Rightarrow> RetellClient \<Rightarrow> RetellClient" where
  "resetInactivityTimer now c = c\<lparr>lastActivityTimeRef := Some now, inactivityTimerRef := True\<rparr>"

subsection \<open>The listeners of the realtime channel\<close>

datatype TranscriptItem = TranscriptItem (role_of: string) (content_of: string)

text \<open>\<open>response?: string | { content?: string; text?: string }\<close>.\<close>

datatype UpdateResponse = ResponseText string | ResponseObject "string option" "string option"

record Update =
  transcript :: "TranscriptItem list option"
  llmResponse :: "string option"
  response :: "UpdateResponse option"

text \<open>
  \<open>latestTranscript.role.toLowerCase() === 'agent' ? 'assistant' : 'user'\<close>.
\<close>

definition normalizeRole :: "string \<Rightarrow> string" where
  "normalizeRole r = (if toLowerCase r = ''agent'' then ''assistant'' else ''user'')"

text \<open>
  The second half of the \<open>update\<close> listener. \<open>JSON.stringify\<close> is the argument
  \<open>stringify\<close>. A string is truthy unless it is empty.
\<close>

definition truthyString :: "string option \<Rightarrow> bool" where
  "truthyString s = (case s of None \<Rightarrow> False | Some t \<Rightarrow> t \<noteq> [])"

definition responseUpdate :: "(UpdateResponse \<Rightarrow> string) \<Rightarrow> Update \<Rightarrow> Effect list" where
  "responseUpdate stringify update =
     (case response update of
        None \<Rightarrow> []
      | Some (ResponseText s) \<Rightarrow> (if s = [] then [] else [OnResponseUpdate s])
      | Some (ResponseObject c t) \<Rightarrow>
          [OnResponseUpdate
             (if truthyString c then the c
              else if truthyString t then the t
              else stringify (ResponseObject c t))])"

text \<open>
  \<^verbatim>\<open>clientRef.current.on("update", (update) => { ... })\<close>. Each \<open>return\<close> of the
  transcript half leaves the listener, so the response half is skipped with it.
\<close>

definition on_update ::
  "(UpdateResponse \<Rightarrow> string) \<Rightarrow> int \<Rightarrow> Update \<Rightarrow> RetellClient \<Rightarrow> RetellClient \<times> Effect list" where
  "on_update stringify now update c =
     (let c1 = resetInactivityTimer now c
      in case transcript update of
           None \<Rightarrow> (c1, responseUpdate stringify update)
         | Some ts \<Rightarrow>
             (if ts = [] then (c1, [])
              else (let latestTranscript = last ts;
                        role' = normalizeRole (role_of latestTranscript);
                        content' = trim (content_of latestTranscript)
                    in if content' = [] then (c1, [])
                       else (c1, OnTranscriptUpdate role' content' # responseUpdate stringify update))))"

definition on_sentence_complete :: "int \<Rightarrow> RetellClient \<Rightarrow> RetellClient \<times> Effect list" where
  "on_sentence_complete now c = (resetInactivityTimer now c, [OnSentenceComplete])"

text \<open>\<open>onError(error.message || 'An error occurred')\<close>.\<close>

definition on_error :: "string option \<Rightarrow> RetellClient \<Rightarrow> RetellClient \<times> Effect list" where
  "on_error message c =
     (c\<lparr>isStartingCallRef := False, isEndingCallRef := False\<rparr>,
      [OnError (if truthyString message then the message else ''An error occurred'')])"

definition on_call_ended :: "RetellClient \<Rightarrow> RetellClient \<times> Effect list" where
  "on_call_ended c =
     (let (c1, out) = cleanupClient (c\<lparr>isStartingCallRef := False, isEndingCallRef := False\<rparr>)
      in (c1, out @ [OnCallEnded]))"

subsection \<open>\<open>startCall\<close>\<close>

text \<open>
  \<open>startCall\<close> up to the \<open>setTimeout\<close>: the guard, the flag, the debounce timer (arming it
  replaces a pending one).
\<close>

definition startCall :: "RetellClient \<Rightarrow> RetellClient \<times> Effect list" where
  "startCall c =
     (if isStartingCallRef c \<or> isEndingCallRef c then (c, [])
      else (c\<lparr>isStartingCallRef := True, operationTimeoutRef := Some StartOperation\<rparr>, []))"

text \<open>The \<open>catch\<close> and \<open>finally\<close> blocks of the timer callback.\<close>

definition startCall_catch :: "string \<Rightarrow> RetellClient \<Rightarrow> RetellClient \<times> Effect list" where
  "startCall_catch message c =
     (let (c1, out) = cleanupClient c
      in (c1\<lparr>isStartingCallRef := False\<rparr>, [OnError message, OnLoading False] @ out))"

text \<open>The timer callback up to \<open>await fetch(...)\<close>.\<close>

definition startCall_timeout :: "RetellClient \<Rightarrow> RetellClient \<times> Effect list" where
  "startCall_timeout c =
     (let (c1, out) = initializeClient c
      in if \<not> clientRef c1
         then (let (c2, out2) = startCall_catch ''Client initialization failed'' c1
               in (c2, OnLoading True # out @ out2))
         else (c1\<lparr>awaitingFetch := Suc (awaitingFetch c1)\<rparr>, OnLoading True # out @ [FetchCreateCall]))"

text \<open>
  The \<open>fetch\<close> has settled: with \<open>response.ok\<close>, with another response, or rejected with
  an error of some message. The body runs up to \<open>await clientRef.current.startCall\<close>.
  Reading \<open>startCall\<close> of a \<open>null\<close> client throws a \<open>TypeError\<close>, whose message is the
  argument \<open>typeError\<close>.
\<close>

datatype FetchResult = ResponseOk | ResponseNotOk | FetchRejected string

definition startCall_fetched ::
  "string \<Rightarrow> FetchResult \<Rightarrow> RetellClient \<Rightarrow> RetellClient \<times> Effect list" where
  "startCall_fetched typeError result c =
     (if awaitingFetch c = 0 then (c, [])
      else (let c1 = c\<lparr>awaitingFetch := awaitingFetch c - 1\<rparr>
            in case result of
                 FetchRejected message \<Rightarrow> startCall_catch message c1
               | ResponseNotOk \<Rightarrow> startCall_catch ''Failed to create call'' c1
               | ResponseOk \<Rightarrow>
                   (if \<not> clientRef c1 then startCall_catch typeError c1
                    else (c1\<lparr>awaitingStartCall := Suc (awaitingStartCall c1)\<rparr>, [StartCallSdk]))))"

text \<open>
  \<open>client.startCall\<close> has settled: \<open>None\<close> when it resolved, \<open>Some message\<close> when it was
  rejected (\<open>err instanceof Error ? err.message : 'Failed to start call'\<close>).
\<close>

definition startCall_settled ::
  "string option \<Rightarrow> int \<Rightarrow> RetellClient \<Rightarrow> RetellClient \<times> Effect list" where
  "startCall_settled rejected now c =
     (if awaitingStartCall c = 0 then (c, [])
      else (let c1 = c\<lparr>awaitingStartCall := awaitingStartCall c - 1\<rparr>
            in case rejected of
                 Some message \<Rightarrow> startCall_catch message c1
               | None \<Rightarrow>
                   ((resetInactivityTimer now (c1\<lparr>callStartTimeRef := Some now\<rparr>))
                      \<lparr>isStartingCallRef := False\<rparr>,
                    [OnCallStarted])))"

subsection \<open>\<open>endCall\<close>\<close>

text \<open>\<open>endCall\<close> up to the \<open>setTimeout\<close>: \<open>now\<close> is \<open>Date.now()\<close>.\<close>

definition endCall :: "int \<Rightarrow> RetellClient \<Rightarrow> RetellClient \<times> Effect list" where
  "endCall now c =
     (if isEndingCallRef c \<or> isStartingCallRef c then (c, [])
      else if truthyTime (callStartTimeRef c)
              \<and> now - the (callStartTimeRef c) < MIN_CALL_DURATION_MS then (c, [])
      else (c\<lparr>isEndingCallRef := True, operationTimeoutRef := Some EndOperation\<rparr>, []))"

text \<open>The timer callback up to \<open>await clientRef.current.stopCall()\<close>.\<close>

definition endCall_timeout :: "RetellClient \<Rightarrow> RetellClient \<times> Effect list" where
  "endCall_timeout c =
     (if \<not> clientRef c then (c\<lparr>isEndingCallRef := False\<rparr>, [])
      else (c\<lparr>awaitingStopCall := Suc (awaitingStopCall c)\<rparr>, [StopCall]))"

text \<open>
  \<open>client.stopCall\<close> has settled. When it resolved nothing is left to do (\<open>call_ended\<close>
  will follow); when it was rejected the \<open>catch\<close> block runs.
\<close>

definition endCall_settled :: "string option \<Rightarrow> RetellClient \<Rightarrow> RetellClient \<times> Effect list" where
  "endCall_settled rejected c =
     (if awaitingStopCall c = 0 then (c, [])
      else (let c1 = c\<lparr>awaitingStopCall := awaitingStopCall c - 1\<rparr>
            in case rejected of
                 None \<Rightarrow> (c1, [])
               | Some message \<Rightarrow>
                   (let (c2, out) = cleanupClient c1
                    in (c2, OnError message # out @ [OnCallEnded]))))"

text \<open>
  The callback of the inactivity timer (\<open>resetInactivityTimer\<close>): it ends the call only
  when the call is older than the minimum duration.
\<close>

definition inactivity_timeout :: "int \<Rightarrow> RetellClient \<Rightarrow> RetellClient \<times> Effect list" where
  "inactivity_timeout now c =
     (let c1 = c\<lparr>inactivityTimerRef := False\<rparr>
      in if truthyTime (callStartTimeRef c1)
            \<and> now - the (callStartTimeRef c1) > MIN_CALL_DURATION_MS
         then endCall now c1 else (c1, []))"

text \<open>The hook after its mount effect: \<open>initializeClient()\<close> on fresh refs.\<close>

definition mountedClient :: RetellClient where
  "mountedClient =
     \<lparr>clientRef = True, isInitialized = True, callStartTimeRef = None,
      lastActivityTimeRef = None, inactivityTimerRef = False, isEndingCallRef = False,
      isStartingCallRef = False, operationTimeoutRef = None, awaitingFetch = 0,
      awaitingStartCall = 0, awaitingStopCall = 0\<rparr>"

section \<open>The component \<open>VoiceBot\<close> (\<^verbatim>\<open>src/unnamed/part_004\<close>)\<close>

text \<open>
  \<open>current\<close> is the React state, \<open>retell\<close> the refs of \<open>useRetellClient\<close>. The component
  has an \<open>isStartingCallRef\<close> of its own, here \<open>isStartingCallRef_vb\<close>.

  A callback that a timer, a suspended \<open>async\<close> body or the recognition object holds is
  a closure of the render that created it, and the \<open>state\<close> it reads is the state of that
  render. Such a closure is kept here as the state it has captured:

  \<^item> \<open>startCallTimers\<close>: for every armed 800 ms timer of \<open>handleWakeWordDetected\<close>, the state
    of the render whose \<open>startCall\<close> it will call;
  \<^item> \<open>listenTimers\<close>: for every armed 1500 ms timer of \<open>onCallEnded\<close> and \<open>onError\<close>, the
    state of the render whose \<open>startWakeWordDetection\<close> it will call;
  \<^item> \<open>recognitionHandlers\<close>: the state of the render whose \<open>handleWakeWordDetected\<close> the
    recognition object was given by \<open>setupRecognition\<close> (\<open>None\<close>: there is no such object);
  \<^item> \<open>operationCallbacks\<close>: the state of the render whose \<open>startCall\<close> or \<open>endCall\<close> armed
    the pending debounce timer, and whose \<open>onError\<close> and \<open>onCallEnded\<close> its callback calls;
  \<^item> \<open>fetchCallbacks\<close>, \<open>startCallCallbacks\<close>, \<open>stopCallCallbacks\<close>: the same for every body
    suspended at \<open>await fetch\<close>, at \<open>await client.startCall\<close> and at
    \<open>await client.stopCall\<close>, oldest first.

  The handlers read three fields of the state they capture, \<open>messages\<close>, \<open>isCallActive\<close> and
  \<open>isLoading\<close>. These are the dependencies of \<open>handleWakeWordDetected\<close> and of
  \<open>startWakeWordDetection\<close>, so a memoized handler agrees on them with the render that uses
  it.
\<close>

record VoiceBot =
  current :: VoiceBotState
  isStartingCallRef_vb :: bool
  wakeWordDetectionEnabledRef :: bool
  retell :: RetellClient
  startCallTimers :: "VoiceBotState list"
  listenTimers :: "VoiceBotState list"
  recognitionHandlers :: "VoiceBotState option"
  operationCallbacks :: VoiceBotState
  fetchCallbacks :: "VoiceBotState list"
  startCallCallbacks :: "VoiceBotState list"
  stopCallCallbacks :: "VoiceBotState list"

text \<open>The \<open>system\<close> entries of the log are object literals without a \<open>role\<close>.\<close>

definition systemMessage :: "string \<Rightarrow> int \<Rightarrow> string \<Rightarrow> Message" where
  "systemMessage uuid now text =
     \<lparr>id_msg = uuid, type = System, role = None, content = text, timestamp = now,
      isComplete = Some True\<rparr>"

text \<open>
  \<open>startCall\<close>, \<open>endCall\<close> or the callback of the inactivity timer (the argument \<open>f\<close>), as
  the render with the state \<open>state\<close> has created it, run on the refs. It arms the debounce
  timer exactly when it raises its flag (\<open>isStartingCallRef\<close> or \<open>isEndingCallRef\<close>, which
  its guard has found cleared); the callback of that timer is a closure of the same
  render. A call that stops at its guard leaves a pending timer as it is.
\<close>

definition request ::
  "VoiceBotState \<Rightarrow> (RetellClient \<Rightarrow> RetellClient \<times> Effect list) \<Rightarrow> VoiceBot \<Rightarrow> VoiceBot \<times> Effect list" where
  "request state f vb =
     (let (c, out) = f (retell vb);
          armed = ((isStartingCallRef c \<and> \<not> isStartingCallRef (retell vb))
                   \<or> (isEndingCallRef c \<and> \<not> isEndingCallRef (retell vb)))
      in (vb\<lparr>retell := c,
              operationCallbacks := (if armed then state else operationCallbacks vb)\<rparr>, out))"

text \<open>
  \<open>handleWakeWordDetected\<close> of the render with the state \<open>state\<close>. The \<open>startCall\<close> its timer
  will call is the one of that render.
\<close>

definition handleWakeWordDetected :: "VoiceBotState \<Rightarrow> string \<Rightarrow> int \<Rightarrow> VoiceBot \<Rightarrow> VoiceBot" where
  "handleWakeWordDetected state uuid now vb =
     (if isStartingCallRef_vb vb \<or> isCallActive state \<or> isLoading state then vb
      else vb\<lparr>current := (current vb)
                 \<lparr>isListeningForWakeWord := False,
                  messages := messages state @
                    [systemMessage uuid now ''Wake word detected! Starting conversation...'']\<rparr>,
               isStartingCallRef_vb := True,
               startCallTimers := startCallTimers vb @ [state]\<rparr>)"

text \<open>
  The callback of that timer: \<open>startCall(); isStartingCallRef.current = false\<close>. The oldest
  timer fires.
\<close>

definition handleWakeWordDetected_timeout :: "VoiceBot \<Rightarrow> VoiceBot \<times> Effect list" where
  "handleWakeWordDetected_timeout vb =
     (case startCallTimers vb of
        [] \<Rightarrow> (vb, [])
      | state # rest \<Rightarrow>
          (let (vb1, out) = request state startCall (vb\<lparr>startCallTimers := rest\<rparr>)
           in (vb1\<lparr>isStartingCallRef_vb := False\<rparr>, out)))"

text \<open>
  The callback of the 500 ms timer of the effect of \<open>useWakeWordDetection\<close>, as far as the
  component is concerned: \<open>startDetection\<close> calls \<open>setupRecognition\<close> when there is no
  recognition object yet, and the handlers of the new object keep the \<open>onWakeWordDetected\<close>
  they are given. The timer is armed while \<open>isActive\<close> (\<open>state.isListeningForWakeWord\<close>)
  holds, and re-armed by every render that changes \<open>isActive\<close> or \<open>handleWakeWordDetected\<close>,
  so the \<open>handleWakeWordDetected\<close> of its render reads what the current state has when it
  fires. An object once set up is kept: \<open>startDetection\<close> does not set it up again. (The
  retry of \<open>startDetection\<close> does, after a \<open>recognition.start()\<close> that threw; here the
  browser is one in which it does not throw.)
\<close>

definition detection_timeout :: "VoiceBot \<Rightarrow> VoiceBot" where
  "detection_timeout vb =
     (if isListeningForWakeWord (current vb) \<and> recognitionHandlers vb = None
      then vb\<lparr>recognitionHandlers := Some (current vb)\<rparr>
      else vb)"

text \<open>
  \<open>onWakeWordDetected()\<close> in \<open>recognition.onresult\<close>: the handler that runs is the one the
  recognition object has kept since \<open>setupRecognition\<close>.
\<close>

definition onWakeWordDetected :: "string \<Rightarrow> int \<Rightarrow> VoiceBot \<Rightarrow> VoiceBot" where
  "onWakeWordDetected uuid now vb =
     (case recognitionHandlers vb of
        None \<Rightarrow> vb
      | Some state \<Rightarrow> handleWakeWordDetected state uuid now vb)"

datatype Toast = Toast string string

definition handleWakeWordError :: "string \<Rightarrow> Toast list" where
  "handleWakeWordError error' =
     (if error' \<noteq> ''no-speech'' \<and> error' \<noteq> ''aborted''
      then [Toast ''Wake Word Detection Issue''
              (''There was a problem with wake word detection: '' @ error')]
      else [])"

definition startWakeWordDetection :: "VoiceBotState \<Rightarrow> string \<Rightarrow> int \<Rightarrow> VoiceBot \<Rightarrow> VoiceBot" where
  "startWakeWordDetection state uuid now vb =
     (if isCallActive state \<or> isLoading state then vb
      else if \<not> wakeWordDetectionEnabledRef vb
      then vb\<lparr>current := (current vb)
                 \<lparr>isListeningForWakeWord := True,
                  messages := messages state @
                    [systemMessage uuid now
                       (''Listening for wake word: '' @ [CHR 0x22] @ WAKE_WORD @ [CHR 0x22])]\<rparr>,
               wakeWordDetectionEnabledRef := True\<rparr>
      else vb\<lparr>current := (current vb)\<lparr>isListeningForWakeWord := True\<rparr>\<rparr>)"

definition stopWakeWordDetection :: "VoiceBot \<Rightarrow> VoiceBot" where
  "stopWakeWordDetection vb =
     vb\<lparr>current := (current vb)\<lparr>isListeningForWakeWord := False\<rparr>,
        wakeWordDetectionEnabledRef := False\<rparr>"

subsection \<open>The callbacks handed to \<open>useRetellClient\<close>\<close>

text \<open>
  They are arrow functions written in the call of the hook, so every render makes new
  ones. \<open>onCallEnded\<close> and \<open>onError\<close> of the render with the state \<open>state\<close> arm a timer that
  calls the \<open>startWakeWordDetection\<close> of that render.
\<close>

definition onCallStarted :: "VoiceBot \<Rightarrow> VoiceBot" where
  "onCallStarted vb =
     vb\<lparr>current := (current vb)\<lparr>isCallActive := True, isLoading := False, callStatus := Ongoing\<rparr>,
        wakeWordDetectionEnabledRef := False\<rparr>"

definition onCallEnded :: "VoiceBotState \<Rightarrow> VoiceBot \<Rightarrow> VoiceBot" where
  "onCallEnded state vb =
     vb\<lparr>current := (current vb)\<lparr>isCallActive := False, callStatus := Ended, isLoading := False\<rparr>,
        listenTimers := listenTimers vb @ [state]\<rparr>"

definition onError :: "VoiceBotState \<Rightarrow> string \<Rightarrow> VoiceBot \<Rightarrow> VoiceBot" where
  "onError state error' vb =
     vb\<lparr>current := (current vb)
           \<lparr>error := Some error', callStatus := Error, isCallActive := False, isLoading := False\<rparr>,
        listenTimers := listenTimers vb @ [state]\<rparr>"

definition onLoading :: "bool \<Rightarrow> VoiceBot \<Rightarrow> VoiceBot" where
  "onLoading isLoading' vb = vb\<lparr>current := (current vb)\<lparr>isLoading := isLoading'\<rparr>\<rparr>"

text \<open>The callback of a 1500 ms timer of \<open>onCallEnded\<close> or \<open>onError\<close>: the oldest one fires.\<close>

definition listen_timeout :: "string \<Rightarrow> int \<Rightarrow> VoiceBot \<Rightarrow> VoiceBot" where
  "listen_timeout uuid now vb =
     (case listenTimers vb of
        [] \<Rightarrow> vb
      | state # rest \<Rightarrow> startWakeWordDetection state uuid now (vb\<lparr>listenTimers := rest\<rparr>))"

text \<open>
  The effect \<open>Start listening for wake word by default\<close>. Its 1500 ms timer is armed when
  \<open>isInitialized && !state.isCallActive && !state.isLoading\<close>, and re-armed whenever
  \<open>state.messages\<close>, \<open>state.isCallActive\<close> or \<open>state.isLoading\<close> change (they are the
  dependencies of \<open>startWakeWordDetection\<close>). So the state its callback has captured agrees
  with the current one on every field \<open>startWakeWordDetection\<close> reads.
\<close>

definition defaultListen_timeout :: "string \<Rightarrow> int \<Rightarrow> VoiceBot \<Rightarrow> VoiceBot" where
  "defaultListen_timeout uuid now vb =
     (if isInitialized (retell vb) \<and> \<not> isCallActive (current vb) \<and> \<not> isLoading (current vb)
      then startWakeWordDetection (current vb) uuid now vb
      else vb)"

subsection \<open>The buttons\<close>

text \<open>
  \<open>handleStartCall\<close> and \<open>handleEndCall\<close> have \<open>startCall\<close> and \<open>endCall\<close> among their
  dependencies, which are new in every render (their own dependencies are the arrow
  functions above). So a button runs the handler of the latest render, and that handler
  the \<open>startCall\<close> or \<open>endCall\<close> of the same render.
\<close>

definition handleStartCall :: "VoiceBotState \<Rightarrow> VoiceBot \<Rightarrow> VoiceBot \<times> Effect list" where
  "handleStartCall state vb =
     (if isStartingCallRef_vb vb \<or> isCallActive state \<or> isLoading state then (vb, [])
      else (let (vb1, out) = request state startCall vb
            in (vb1\<lparr>current := (current vb)\<lparr>error := None, isListeningForWakeWord := False\<rparr>,
                     isStartingCallRef_vb := False\<rparr>, out)))"

definition handleEndCall :: "VoiceBotState \<Rightarrow> int \<Rightarrow> VoiceBot \<Rightarrow> VoiceBot \<times> Effect list" where
  "handleEndCall state now vb =
     (let (vb1, out) = request state (endCall now) vb
      in (vb1\<lparr>current := (current vb)\<lparr>isLoading := True\<rparr>\<rparr>, out))"

text \<open>
  \<open>CallControls\<close>. The first button is \<open>disabled={isCallActive}\<close> and toggles the wake-word
  detection; the second is \<open>disabled={isLoading || isListeningForWakeWord}\<close> and starts or
  ends the call. The handlers of a button are those of the latest render.
\<close>

definition listenButton :: "string \<Rightarrow> int \<Rightarrow> VoiceBot \<Rightarrow> VoiceBot" where
  "listenButton uuid now vb =
     (if isCallActive (current vb) then vb
      else if isListeningForWakeWord (current vb) then stopWakeWordDetection vb
      else startWakeWordDetection (current vb) uuid now vb)"

definition callButton :: "int \<Rightarrow> VoiceBot \<Rightarrow> VoiceBot \<times> Effect list" where
  "callButton now vb =
     (if isLoading (current vb) \<or> isListeningForWakeWord (current vb) then (vb, [])
      else if isCallActive (current vb) then handleEndCall (current vb) now vb
      else handleStartCall (current vb) vb)"

section \<open>The controller as an event system\<close>

text \<open>
  One callback of the hook, run by the component; \<open>state\<close> is the state of the render the
  callback belongs to. \<open>uuid\<close> names a new transcription, \<open>uuid2\<close> a new response.
\<close>

definition deliver :: "VoiceBotState \<Rightarrow> string \<Rightarrow> string \<Rightarrow> int \<Rightarrow> VoiceBot \<Rightarrow> Effect \<Rightarrow> VoiceBot" where
  "deliver state uuid uuid2 now vb e =
     (case e of
        OnCallStarted \<Rightarrow> onCallStarted vb
      | OnCallEnded \<Rightarrow> onCallEnded state vb
      | OnError m \<Rightarrow> onError state m vb
      | OnLoading b \<Rightarrow> onLoading b vb
      | OnTranscriptUpdate r c \<Rightarrow> vb\<lparr>current := onTranscriptUpdate r c uuid now (current vb)\<rparr>
      | OnResponseUpdate c \<Rightarrow> vb\<lparr>current := onResponseUpdate c uuid2 now (current vb)\<rparr>
      | OnSentenceComplete \<Rightarrow> vb\<lparr>current := onSentenceComplete (current vb)\<rparr>
      | _ \<Rightarrow> vb)"

text \<open>
  A listener of the channel runs on the refs; its callbacks then run on the component,
  in order. The effect that registers the listeners has the callbacks among its
  dependencies, so it removes the listeners and registers new ones after every render:
  the callbacks of a listener are those of the latest render.
\<close>

definition hookCall ::
  "string \<Rightarrow> string \<Rightarrow> int \<Rightarrow> (RetellClient \<Rightarrow> RetellClient \<times> Effect list) \<Rightarrow> VoiceBot \<Rightarrow> VoiceBot \<times> Effect list" where
  "hookCall uuid uuid2 now f vb =
     (let (c, out) = f (retell vb)
      in (foldl (deliver (current vb) uuid uuid2 now) (vb\<lparr>retell := c\<rparr>) out, out))"

text \<open>
  A piece of the \<open>async\<close> body of \<open>startCall\<close> or \<open>endCall\<close> (the callback of the debounce
  timer up to its first \<open>await\<close>, or its continuation after an \<open>await\<close>) runs on the refs.
  The callbacks it calls are those of the render that created the \<open>startCall\<close> or
  \<open>endCall\<close>, whose state is \<open>state\<close>. When the piece ends at an \<open>await\<close>, so that the hook
  counts one suspended body more than are on record here, the body is put on record with
  that state.
\<close>

definition suspend :: "VoiceBotState \<Rightarrow> nat \<Rightarrow> VoiceBotState list \<Rightarrow> VoiceBotState list" where
  "suspend state n bodies = (if length bodies < n then bodies @ [state] else bodies)"

definition hookCallWith ::
  "VoiceBotState \<Rightarrow> (RetellClient \<Rightarrow> RetellClient \<times> Effect list) \<Rightarrow> VoiceBot \<Rightarrow> VoiceBot \<times> Effect list" where
  "hookCallWith state f vb =
     (let (c, out) = f (retell vb);
          vb1 = foldl (deliver state [] [] 0) (vb\<lparr>retell := c\<rparr>) out
      in (vb1\<lparr>fetchCallbacks := suspend state (awaitingFetch c) (fetchCallbacks vb1),
               startCallCallbacks := suspend state (awaitingStartCall c) (startCallCallbacks vb1),
               stopCallCallbacks := suspend state (awaitingStopCall c) (stopCallCallbacks vb1)\<rparr>,
          out))"

datatype Event =
    ListenButton string int
  | CallButton int
  | DefaultListenTimer string int
  | ListenTimer string int
  | DetectionTimer
  | WakeWordDetected string int
  | StartCallTimer
  | OperationTimer
  | InactivityTimer int
  | FetchSettled FetchResult
  | StartCallSettled "string option" int
  | StopCallSettled "string option"
  | UpdateEvent Update string string int
  | SentenceCompleteEvent int
  | ErrorEvent "string option"
  | CallEndedEvent

text \<open>
  The events: the two buttons, the timers, the \<open>onWakeWordDetected\<close> callback of the
  monitor, the settling of the three awaited requests, and the events of the channel.
  The buttons and the listeners of the channel run the handlers of the latest render,
  which read the current state. A timer, the recognition object and a suspended body run
  the closure they hold. Of several bodies suspended at the same kind of request, the
  oldest is resumed.

  \<open>resetInactivityTimer\<close> has no dependencies, so the \<open>endCall\<close> its timer calls is the one of
  the first render: the callbacks of that \<open>endCall\<close> read the initial state.
\<close>

text \<open>What the controller takes from its platform: \<open>JSON.stringify\<close> and the message
  of the \<open>TypeError\<close> for a property of \<open>null\<close>.\<close>

record Platform =
  stringify :: "UpdateResponse \<Rightarrow> string"
  typeError :: string

definition operation_timeout :: "RetellClient \<Rightarrow> RetellClient \<times> Effect list" where
  "operation_timeout c =
     (case operationTimeoutRef c of
        None \<Rightarrow> (c, [])
      | Some StartOperation \<Rightarrow> startCall_timeout (c\<lparr>operationTimeoutRef := None\<rparr>)
      | Some EndOperation \<Rightarrow> endCall_timeout (c\<lparr>operationTimeoutRef := None\<rparr>))"

definition step :: "Platform \<Rightarrow> Event \<Rightarrow> VoiceBot \<Rightarrow> VoiceBot \<times> Effect list" where
  "step pf ev vb =
     (case ev of
        ListenButton uuid now \<Rightarrow> (listenButton uuid now vb, [])
      | CallButton now \<Rightarrow> callButton now vb
      | DefaultListenTimer uuid now \<Rightarrow> (defaultListen_timeout uuid now vb, [])
      | ListenTimer uuid now \<Rightarrow> (listen_timeout uuid now vb, [])
      | DetectionTimer \<Rightarrow> (detection_timeout vb, [])
      | WakeWordDetected uuid now \<Rightarrow> (onWakeWordDetected uuid now vb, [])
      | StartCallTimer \<Rightarrow> handleWakeWordDetected_timeout vb
      | OperationTimer \<Rightarrow> hookCallWith (operationCallbacks vb) operation_timeout vb
      | InactivityTimer now \<Rightarrow>
          (if inactivityTimerRef (retell vb) then request initialState (inactivity_timeout now) vb
           else (vb, []))
      | FetchSettled result \<Rightarrow>
          (case fetchCallbacks vb of
             [] \<Rightarrow> (vb, [])
           | state # rest \<Rightarrow>
               hookCallWith state (startCall_fetched (typeError pf) result)
                 (vb\<lparr>fetchCallbacks := rest\<rparr>))
      | StartCallSettled rejected now \<Rightarrow>
          (case startCallCallbacks vb of
             [] \<Rightarrow> (vb, [])
           | state # rest \<Rightarrow>
               hookCallWith state (startCall_settled rejected now) (vb\<lparr>startCallCallbacks := rest\<rparr>))
      | StopCallSettled rejected \<Rightarrow>
          (case stopCallCallbacks vb of
             [] \<Rightarrow> (vb, [])
           | state # rest \<Rightarrow>
               hookCallWith state (endCall_settled rejected) (vb\<lparr>stopCallCallbacks := rest\<rparr>))
      | UpdateEvent update uuid uuid2 now \<Rightarrow>
          hookCall uuid uuid2 now (on_update (stringify pf) now update) vb
      | SentenceCompleteEvent now \<Rightarrow> hookCall [] [] now (on_sentence_complete now) vb
      | ErrorEvent message \<Rightarrow> hookCall [] [] 0 (on_error message) vb
      | CallEndedEvent \<Rightarrow> hookCall [] [] 0 on_call_ended vb)"

text \<open>A sequence of events, with everything the hook did along the way.\<close>

fun run :: "Platform \<Rightarrow> Event list \<Rightarrow> VoiceBot \<Rightarrow> VoiceBot \<times> Effect list" where
  "run pf [] vb = (vb, [])"
| "run pf (ev # evs) vb =
     (let (vb1, out1) = step pf ev vb;
          (vb2, out2) = run pf evs vb1
      in (vb2, out1 @ out2))"

text \<open>
  The component after mount: the initial state, fresh refs, the client created, no
  recognition object, nothing pending.
\<close>

definition mounted :: VoiceBot where
  "mounted =
     \<lparr>current = initialState, isStartingCallRef_vb = False, wakeWordDetectionEnabledRef = False,
      retell = mountedClient, startCallTimers = [], listenTimers = [],
      recognitionHandlers = None, operationCallbacks = initialState, fetchCallbacks = [],
      startCallCallbacks = [], stopCallCallbacks = []\<rparr>"

text \<open>
  The bodies on record are the bodies that the hook counts as suspended.
\<close>

definition onRecord :: "VoiceBot \<Rightarrow> bool" where
  "onRecord vb =
     (length (fetchCallbacks vb) = awaitingFetch (retell vb)
      \<and> length (startCallCallbacks vb) = awaitingStartCall (retell vb)
      \<and> length (stopCallCallbacks vb) = awaitingStopCall (retell vb))"

text \<open>A function of the hook that suspends no body and resumes none.\<close>

definition sameBodies :: "RetellClient \<Rightarrow> RetellClient \<Rightarrow> bool" where
  "sameBodies c c' =
     (awaitingFetch c' = awaitingFetch c \<and> awaitingStartCall c' = awaitingStartCall c
      \<and> awaitingStopCall c' = awaitingStopCall c)"

section \<open>The wake-word monitor \<open>useWakeWordDetection\<close> (\<^verbatim>\<open>src/unnamed/part_004\<close>)\<close>

text \<open>
  The refs of the hook. \<open>recognitionRef\<close> says whether a recognition object exists.
  \<open>restartTimerRef\<close> is the restart timer that \<open>onend\<close> armed last, with its delay in
  milliseconds; \<open>retryTimers\<close> counts the armed 1000 ms timers of the \<open>catch\<close> block of
  \<open>startDetection\<close>, which no ref tracks.

  The delay \<open>Math.min(1000 * Math.pow(1.5, n), 10000)\<close> is a rational number here. Where
  the cap is not reached (\<open>n \<le> 5\<close>) the exact values 1000, 1500, 2250, 3375, 5062.5 and
  7593.75 are doubles, so the arithmetic of JavaScript has nothing to round; from \<open>n = 6\<close>
  on the product exceeds 10000 and the minimum is the cap.
\<close>

record WakeWordDetection =
  recognitionRef :: bool
  isRecognitionActiveRef :: bool
  wakeWordDetectedRef :: bool
  lastErrorTimeRef :: int
  restartTimerRef :: "rat option"
  setupAttemptRef :: nat
  retryTimers :: nat

text \<open>
  What the browser decides: whether \<open>window\<close> has a speech recognition constructor,
  whether \<open>new SpeechRecognition()\<close> throws, and whether \<open>recognition.start()\<close> throws.
  \<open>recognition.stop()\<close> does not throw.
\<close>

record Browser =
  speechRecognitionSupported :: bool
  constructorThrows :: bool
  startThrows :: bool

datatype DetectionEffect =
    RecognitionStart
  | RecognitionStop
  | WakeWordDetectedCallback
  | ErrorCallback string
  | NotSupportedToast

definition safelyStopRecognition :: "WakeWordDetection \<Rightarrow> WakeWordDetection \<times> DetectionEffect list" where
  "safelyStopRecognition w =
     (if recognitionRef w \<and> isRecognitionActiveRef w
      then (w\<lparr>isRecognitionActiveRef := False\<rparr>, [RecognitionStop])
      else (w, []))"

definition cleanup :: "WakeWordDetection \<Rightarrow> WakeWordDetection \<times> DetectionEffect list" where
  "cleanup w =
     (let (w1, out) = safelyStopRecognition (w\<lparr>restartTimerRef := None\<rparr>)
      in (w1\<lparr>wakeWordDetectedRef := False, isRecognitionActiveRef := False, setupAttemptRef := 0\<rparr>,
          out))"

text \<open>\<open>setupRecognition\<close>: the result says whether it returned \<open>true\<close>.\<close>

definition setupRecognition ::
  "Browser \<Rightarrow> WakeWordDetection \<Rightarrow> (WakeWordDetection \<times> DetectionEffect list) \<times> bool" where
  "setupRecognition br w =
     (let (w1, out) = cleanup w
      in if \<not> speechRecognitionSupported br
         then ((w1, out @ (if setupAttemptRef w1 = 0 then [NotSupportedToast] else [])), False)
         else if constructorThrows br then ((w1, out), False)
         else ((w1\<lparr>recognitionRef := True\<rparr>, out), True))"

text \<open>\<open>Array.prototype.join\<close> and \<open>String.prototype.includes\<close> (\<open>includes_str s n\<close> is \<open>s.includes(n)\<close>).\<close>

fun join :: "string \<Rightarrow> string list \<Rightarrow> string" where
  "join sep [] = []"
| "join sep [x] = x"
| "join sep (x # y # ys) = x @ sep @ join sep (y # ys)"

fun includes_str :: "string \<Rightarrow> string \<Rightarrow> bool" where
  "includes_str [] n = (n = [])"
| "includes_str (c # cs) n = (take (length n) (c # cs) = n \<or> includes_str cs n)"

text \<open>\<open>recognition.onresult\<close>: \<open>results\<close> are the \<open>result[0].transcript\<close> of the event.\<close>

definition recognition_onresult ::
  "string list \<Rightarrow> WakeWordDetection \<Rightarrow> WakeWordDetection \<times> DetectionEffect list" where
  "recognition_onresult results w =
     (if wakeWordDetectedRef w then (w, [])
      else (let transcript' = join '' '' (map toLowerCase results)
            in if includes_str transcript' WAKE_WORD
               then (let (w1, out) = safelyStopRecognition (w\<lparr>wakeWordDetectedRef := True\<rparr>)
                     in (w1, out @ [WakeWordDetectedCallback]))
               else (w, [])))"

text \<open>\<open>recognition.onend\<close>; \<open>isActive\<close> is the prop the handler has captured.\<close>

definition restartDelay :: "nat \<Rightarrow> rat" where
  "restartDelay n = min (1000 * (3 / 2) ^ n) 10000"

definition recognition_onend :: "bool \<Rightarrow> WakeWordDetection \<Rightarrow> WakeWordDetection" where
  "recognition_onend isActive w =
     (let w1 = w\<lparr>isRecognitionActiveRef := False\<rparr>
      in if \<not> wakeWordDetectedRef w1 \<and> isActive
         then w1\<lparr>restartTimerRef := Some (restartDelay (setupAttemptRef w1))\<rparr>
         else w1)"

text \<open>\<open>recognition.onerror\<close>; \<open>now\<close> is \<open>Date.now()\<close>, \<open>errorType\<close> is \<open>event.error\<close>.\<close>

definition recognition_onerror ::
  "int \<Rightarrow> string \<Rightarrow> WakeWordDetection \<Rightarrow> WakeWordDetection \<times> DetectionEffect list" where
  "recognition_onerror now errorType w =
     (let w1 = w\<lparr>isRecognitionActiveRef := False\<rparr>
      in if errorType \<noteq> ''aborted'' \<and> now - lastErrorTimeRef w1 > 5000
         then (w1\<lparr>lastErrorTimeRef := now\<rparr>,
               if errorType \<noteq> ''no-speech'' then [ErrorCallback errorType] else [])
         else (w1, []))"

definition startDetection ::
  "Browser \<Rightarrow> WakeWordDetection \<Rightarrow> WakeWordDetection \<times> DetectionEffect list" where
  "startDetection br w =
     (if isRecognitionActiveRef w then (w, [])
      else (let w1 = w\<lparr>wakeWordDetectedRef := False\<rparr>;
                ((w2, out), ok) =
                  (if \<not> recognitionRef w1 then setupRecognition br w1 else ((w1, []), True))
            in if \<not> ok then (w2\<lparr>setupAttemptRef := Suc (setupAttemptRef w2)\<rparr>, out)
               else if recognitionRef w2 \<and> \<not> isRecognitionActiveRef w2
               then (if startThrows br
                     then (w2\<lparr>isRecognitionActiveRef := False,
                              setupAttemptRef := Suc (setupAttemptRef w2),
                              retryTimers := (if Suc (setupAttemptRef w2) < 5
                                              then Suc (retryTimers w2) else retryTimers w2)\<rparr>,
                           out)
                     else (w2\<lparr>isRecognitionActiveRef := True, setupAttemptRef := 0\<rparr>,
                           out @ [RecognitionStart]))
               else (w2, out)))"

text \<open>The callbacks of the restart timer of \<open>onend\<close> and of the retry timer of \<open>startDetection\<close>.\<close>

definition restart_timeout ::
  "Browser \<Rightarrow> bool \<Rightarrow> WakeWordDetection \<Rightarrow> WakeWordDetection \<times> DetectionEffect list" where
  "restart_timeout br isActive w =
     (case restartTimerRef w of
        None \<Rightarrow> (w, [])
      | Some d \<Rightarrow>
          (if isActive \<and> \<not> wakeWordDetectedRef w
           then startDetection br (w\<lparr>restartTimerRef := None\<rparr>)
           else (w\<lparr>restartTimerRef := None\<rparr>, [])))"

definition retry_timeout ::
  "Browser \<Rightarrow> bool \<Rightarrow> WakeWordDetection \<Rightarrow> WakeWordDetection \<times> DetectionEffect list" where
  "retry_timeout br isActive w =
     (if retryTimers w = 0 then (w, [])
      else (let w1 = w\<lparr>retryTimers := retryTimers w - 1\<rparr>
            in if isActive
               then (let ((w2, out), ok) = setupRecognition br w1;
                         (w3, out3) = startDetection br w2
                     in (w3, out @ out3))
               else (w1, [])))"

definition stopDetection :: "WakeWordDetection \<Rightarrow> WakeWordDetection \<times> DetectionEffect list" where
  "stopDetection w =
     (let (w1, out) = safelyStopRecognition w
      in (w1\<lparr>restartTimerRef := None\<rparr>, out))"

text \<open>
  The monitor wired to the component: an error the monitor reports goes through
  \<open>handleWakeWordError\<close>, which shows the toast.
\<close>

definition errorToasts :: "DetectionEffect list \<Rightarrow> Toast list" where
  "errorToasts out =
     concat (map (\<lambda>e. case e of ErrorCallback err \<Rightarrow> handleWakeWordError err | _ \<Rightarrow> []) out)"

section \<open>Reachable message logs\<close>

text \<open>
  The places of the component that write \<open>messages\<close>: the three log callbacks, which
  update the latest state, and the two handlers that append a \<open>system\<close> entry to the log
  of the state they have captured. The captured state is the state of an earlier
  render, so its log is a reachable one as well.
\<close>

inductive reachable_log :: "Message list \<Rightarrow> bool" where
  initial: "reachable_log (messages initialState)"
| transcript:
    "reachable_log (messages prev) \<Longrightarrow>
     reachable_log (messages (onTranscriptUpdate r c uuid now prev))"
| response:
    "reachable_log (messages prev) \<Longrightarrow>
     reachable_log (messages (onResponseUpdate c uuid now prev))"
| sentence:
    "reachable_log (messages prev) \<Longrightarrow>
     reachable_log (messages (onSentenceComplete prev))"
| wake:
    "reachable_log (messages state) \<Longrightarrow> reachable_log (messages (current vb)) \<Longrightarrow>
     reachable_log (messages (current (handleWakeWordDetected state uuid now vb)))"
| listen:
    "reachable_log (messages state) \<Longrightarrow> reachable_log (messages (current vb)) \<Longrightarrow>
     reachable_log (messages (current (startWakeWordDetection state uuid now vb)))"

text \<open>
  The same, with the log callbacks driven by the listeners of the channel, as the
  running component has them: \<open>onTranscriptUpdate\<close> is only ever called by the \<open>update\<close>
  listener.
\<close>

inductive delivered_log :: "Message list \<Rightarrow> bool" where
  d_initial: "delivered_log (messages initialState)"
| d_update:
    "delivered_log (messages (current vb)) \<Longrightarrow>
     delivered_log (messages (current (fst (hookCall uuid uuid2 now (on_update sf now update) vb))))"
| d_sentence:
    "delivered_log (messages (current vb)) \<Longrightarrow>
     delivered_log (messages (current (fst (hookCall uuid uuid2 now (on_sentence_complete now) vb))))"
| d_wake:
    "delivered_log (messages state) \<Longrightarrow> delivered_log (messages (current vb)) \<Longrightarrow>
     delivered_log (messages (current (handleWakeWordDetected state uuid now vb)))"
| d_listen:
    "delivered_log (messages state) \<Longrightarrow> delivered_log (messages (current vb)) \<Longrightarrow>
     delivered_log (messages (current (startWakeWordDetection state uuid now vb)))"

text \<open>The invariant of the log: for a role, the incomplete messages of that role.\<close>

definition incompleteOf :: "string \<Rightarrow> Message list \<Rightarrow> Message list" where
  "incompleteOf r ms = filter (\<lambda>m. role m = Some r \<and> notComplete m) ms"

text \<open>The position of the oldest message that is still incomplete.\<close>

definition oldestIncomplete :: "Message list \<Rightarrow> nat \<Rightarrow> bool" where
  "oldestIncomplete ms i = (i < length ms \<and> notComplete (ms ! i) \<and> (\<forall>j<i. \<not> notComplete (ms ! j)))"

text \<open>A message whose role, if it is a transcription, is one of the two speaker roles.\<close>

definition normalRole :: "Message \<Rightarrow> bool" where
  "normalRole m = (type m \<noteq> Transcription \<or> role m = Some ''user'' \<or> role m = Some ''assistant'')"

definition rolesNormalized :: "Message list \<Rightarrow> bool" where
  "rolesNormalized ms = list_all normalRole ms"

text \<open>The callbacks a listener of the channel may produce for the log.\<close>

definition channelEffect :: "Effect \<Rightarrow> bool" where
  "channelEffect e =
     (case e of
        OnTranscriptUpdate r c \<Rightarrow> r = ''user'' \<or> r = ''assistant''
      | OnResponseUpdate c \<Rightarrow> True
      | OnSentenceComplete \<Rightarrow> True
      | _ \<Rightarrow> False)"

text \<open>
  Equality with \<open>'agent'\<close> up to the case of each letter, written out letter by letter
  rather than through \<open>toLowerCase\<close>.
\<close>

definition agentIgnoringCase :: "string \<Rightarrow> bool" where
  "agentIgnoringCase r =
     (case r of
        [a, g, e, n, t] \<Rightarrow>
          (a = CHR ''a'' \<or> a = CHR ''A'') \<and> (g = CHR ''g'' \<or> g = CHR ''G'')
          \<and> (e = CHR ''e'' \<or> e = CHR ''E'') \<and> (n = CHR ''n'' \<or> n = CHR ''N'')
          \<and> (t = CHR ''t'' \<or> t = CHR ''T'')
      | _ \<Rightarrow> False)"

text \<open>
  A sequence of recognition errors, each with its \<open>Date.now()\<close>: the errors handed to
  \<open>onError\<close>, with their times. \<open>spaced l xs\<close> says that the times of \<open>xs\<close> lie more than
  5000 ms after \<open>l\<close> and after one another.
\<close>

fun onerror_run :: "(int \<times> string) list \<Rightarrow> WakeWordDetection \<Rightarrow> (int \<times> string) list" where
  "onerror_run [] w = []"
| "onerror_run ((now, e) # es) w =
     (let (w1, out) = recognition_onerror now e w
      in map (\<lambda>_. (now, e)) out @ onerror_run es w1)"

fun spaced :: "int \<Rightarrow> (int \<times> string) list \<Rightarrow> bool" where
  "spaced l [] = True"
| "spaced l ((t, e) # xs) = (t - l > 5000 \<and> spaced t xs)"

section \<open>Example inputs\<close>

text \<open>A log in which both speakers are in the middle of an utterance.\<close>

definition exampleLog :: "Message list" where
  "exampleLog =
     [\<lparr>id_msg = ''m1'', type = Transcription, role = Some ''user'', content = ''hi'',
       timestamp = 1, isComplete = Some False\<rparr>,
      \<lparr>id_msg = ''m2'', type = Transcription, role = Some ''assistant'', content = ''hel'',
       timestamp = 2, isComplete = Some False\<rparr>]"

text \<open>An update whose latest transcript element is blank, with a response beside it.\<close>

definition blankUpdate :: Update where
  "blankUpdate =
     \<lparr>transcript = Some [TranscriptItem ''user'' ''hi'', TranscriptItem ''agent'' ''  ''],
      llmResponse = None, response = Some (ResponseText ''hello'')\<rparr>"

text \<open>An update whose speaker is the agent, in mixed case, with padded content.\<close>

definition agentUpdate :: Update where
  "agentUpdate =
     \<lparr>transcript = Some [TranscriptItem ''AgEnT'' '' hello ''], llmResponse = None, response = None\<rparr>"

definition examplePlatform :: Platform where
  "examplePlatform = \<lparr>stringify = (\<lambda>r. ''{}''), typeError = ''TypeError''\<rparr>"

text \<open>The log of the mounted component after \<open>agentUpdate\<close>.\<close>

definition agentLog :: "Message list" where
  "agentLog =
     messages (current (fst (hookCall ''a'' ''b'' 7
       (on_update (stringify examplePlatform) 7 agentUpdate) mounted)))"

text \<open>The refs of \<open>useWakeWordDetection\<close> at mount, and a browser in which nothing fails.\<close>

definition initialDetection :: WakeWordDetection where
  "initialDetection =
     \<lparr>recognitionRef = False, isRecognitionActiveRef = False, wakeWordDetectedRef = False,
      lastErrorTimeRef = 0, restartTimerRef = None, setupAttemptRef = 0, retryTimers = 0\<rparr>"

definition workingBrowser :: Browser where
  "workingBrowser =
     \<lparr>speechRecognitionSupported = True, constructorThrows = False, startThrows = False\<rparr>"

text \<open>
  A browser in which \<open>recognition.start()\<close> throws (as it does for a recognition object
  that has not yet come to rest), and one without a speech recognition constructor.
\<close>

definition failingBrowser :: Browser where
  "failingBrowser =
     \<lparr>speechRecognitionSupported = True, constructorThrows = False, startThrows = True\<rparr>"

definition unsupportedBrowser :: Browser where
  "unsupportedBrowser =
     \<lparr>speechRecognitionSupported = False, constructorThrows = False, startThrows = False\<rparr>"

text \<open>
  Failed starts in a row. The monitor has started the recognition and has then asked
  it to stop, as the effect does when it runs again (\<open>failedStarts 0\<close>: no start has
  failed yet, and the engine has still to end). The next \<open>startDetection\<close> finds a
  \<open>recognition.start()\<close> that throws: the first failure. Every further failure is the
  1000 ms retry timer of the \<open>catch\<close> block firing, the monitor being active, with
  \<open>recognition.start()\<close> throwing again.
\<close>

fun failedStarts :: "nat \<Rightarrow> WakeWordDetection" where
  "failedStarts 0 =
     fst (stopDetection (fst (startDetection workingBrowser initialDetection)))"
| "failedStarts (Suc 0) = fst (startDetection failingBrowser (failedStarts 0))"
| "failedStarts (Suc (Suc n)) = fst (retry_timeout failingBrowser True (failedStarts (Suc n)))"

chapter \<open>Properties\<close>

section \<open>Lists and \<open>findIndex\<close>\<close>

lemma findIndex_None: "findIndex P xs = None \<longleftrightarrow> (\<forall>x\<in>set xs. \<not> P x)"
  by (induction xs) auto

lemma findIndex_Some:
  "findIndex P xs = Some i \<Longrightarrow> i < length xs \<and> P (xs ! i) \<and> (\<forall>j<i. \<not> P (xs ! j))"
proof (induction xs arbitrary: i)
  case Nil
  then show ?case by simp
next
  case (Cons x xs)
  show ?case
  proof (cases "P x")
    case True
    with Cons.prems show ?thesis by simp
  next
    case False
    with Cons.prems obtain k where k: "findIndex P xs = Some k" and i: "i = Suc k"
      by auto
    from Cons.IH[OF k] have "k < length xs" "P (xs ! k)" "\<forall>j<k. \<not> P (xs ! j)" by auto
    with False i show ?thesis by (auto simp: nth_Cons split: nat.splits)
  qed
qed

text \<open>Searching the reversed list from the front finds the last match of the list.\<close>

lemma findIndex_rev_last:
  assumes "findIndex P (rev xs) = Some k"
  shows "length xs - 1 - k < length xs \<and> P (xs ! (length xs - 1 - k))
         \<and> (\<forall>j. length xs - 1 - k < j \<and> j < length xs \<longrightarrow> \<not> P (xs ! j))"
proof -
  from findIndex_Some[OF assms]
  have k: "k < length xs" and p: "P (rev xs ! k)" and m: "\<forall>j<k. \<not> P (rev xs ! j)"
    by auto
  from k p have 1: "P (xs ! (length xs - 1 - k))" by (simp add: rev_nth)
  have 2: "\<not> P (xs ! j)" if "length xs - 1 - k < j" "j < length xs" for j
  proof -
    let ?i = "length xs - Suc j"
    from that k have "?i < k" by arith
    with m have "\<not> P (rev xs ! ?i)" by blast
    moreover from that have "rev xs ! ?i = xs ! j" by (simp add: rev_nth)
    ultimately show ?thesis by simp
  qed
  from k 1 2 show ?thesis by auto
qed

lemma filter_update_same:
  "P y = P (xs ! i) \<Longrightarrow> i < length xs \<Longrightarrow> length (filter P (xs[i := y])) = length (filter P xs)"
proof (induction xs arbitrary: i)
  case Nil
  then show ?case by simp
next
  case (Cons x xs)
  then show ?case by (cases i) auto
qed

lemma filter_update_le:
  "\<not> P y \<Longrightarrow> length (filter P (xs[i := y])) \<le> length (filter P xs)"
proof (induction xs arbitrary: i)
  case Nil
  then show ?case by simp
next
  case (Cons x xs)
  then show ?case by (cases i) auto
qed

lemma list_all_update:
  "list_all P xs \<Longrightarrow> P y \<Longrightarrow> list_all P (xs[i := y])"
proof (induction xs arbitrary: i)
  case Nil
  then show ?case by simp
next
  case (Cons x xs)
  then show ?case by (cases i) simp_all
qed

section \<open>The message log\<close>

text \<open>
  \<^bold>\<open>Claim C1.\<close> From an empty log, the fragments \<open>("user", "hi")\<close> and
  \<open>("user", "hi there")\<close>, then the sentence-complete signal, then the response \<open>"hello"\<close>
  leave exactly two messages, both complete: the user's \<open>"hi there"\<close>, then the
  assistant's \<open>"hello"\<close>. The second fragment replaces the content of the first message,
  which keeps its identifier and timestamp; nothing else of the state changes.
\<close>

theorem merge_fragments_example:
  "onResponseUpdate ''hello'' u4 t4
     (onSentenceComplete
        (onTranscriptUpdate ''user'' ''hi there'' u2 t2
           (onTranscriptUpdate ''user'' ''hi'' u1 t1 (s\<lparr>messages := []\<rparr>))))
   = s\<lparr>messages :=
        [\<lparr>id_msg = u1, type = Transcription, role = Some ''user'', content = ''hi there'',
           timestamp = t1, isComplete = Some True\<rparr>,
         \<lparr>id_msg = u4, type = Response, role = Some ''assistant'', content = ''hello'',
           timestamp = t4, isComplete = Some True\<rparr>]\<rparr>"
  by (simp add: onResponseUpdate_def onSentenceComplete_def onTranscriptUpdate_def notComplete_def)

text \<open>
  The same conversation as events of the channel, through the listeners of the hook:
  each update carries the transcript so far, of which only the last element counts.
\<close>

lemma merge_fragments_through_channel:
  "messages (current (fst (run pf
      [UpdateEvent \<lparr>transcript = Some [TranscriptItem ''user'' ''hi''],
                    llmResponse = None, response = None\<rparr> u1 v1 t1,
       UpdateEvent \<lparr>transcript = Some [TranscriptItem ''user'' ''hi there''],
                    llmResponse = None, response = None\<rparr> u2 v2 t2,
       SentenceCompleteEvent t3,
       UpdateEvent \<lparr>transcript = None, llmResponse = None,
                    response = Some (ResponseText ''hello'')\<rparr> u4 v4 t4] mounted)))
   = [\<lparr>id_msg = u1, type = Transcription, role = Some ''user'', content = ''hi there'',
        timestamp = t1, isComplete = Some True\<rparr>,
      \<lparr>id_msg = v4, type = Response, role = Some ''assistant'', content = ''hello'',
        timestamp = t4, isComplete = Some True\<rparr>]"
  by (simp add: step_def hookCall_def on_update_def on_sentence_complete_def responseUpdate_def
      resetInactivityTimer_def normalizeRole_def toLowerCase_def toLowerCase_char_def trim_def
      isWhiteSpace_def deliver_def onTranscriptUpdate_def onSentenceComplete_def
      onResponseUpdate_def notComplete_def mounted_def initialState_def Let_def)

subsection \<open>The sentence-complete signal\<close>

lemma findIndex_oldest: "findIndex notComplete ms = Some i \<longleftrightarrow> oldestIncomplete ms i"
proof
  assume "findIndex notComplete ms = Some i"
  from findIndex_Some[OF this] show "oldestIncomplete ms i"
    by (simp add: oldestIncomplete_def)
next
  assume o: "oldestIncomplete ms i"
  then have "\<exists>x\<in>set ms. notComplete x"
    unfolding oldestIncomplete_def using nth_mem by blast
  then obtain k where k: "findIndex notComplete ms = Some k"
    using findIndex_None[of notComplete ms] by (cases "findIndex notComplete ms") auto
  from findIndex_Some[OF k] o have "k = i"
    unfolding oldestIncomplete_def by (meson linorder_neqE_nat)
  with k show "findIndex notComplete ms = Some i" by simp
qed

text \<open>
  \<^bold>\<open>Claim C6.\<close> When \<open>i\<close> is the position of the oldest incomplete message, whatever its
  role, \<open>onSentenceComplete\<close> sets the completion flag of that message and changes nothing
  else: the log is the old one updated at \<open>i\<close>, the rest of the state is kept. Such a
  position exists as soon as some message is incomplete. When no message is incomplete
  the state is returned as it is.
\<close>

theorem sentenceComplete_marks_oldest:
  "(oldestIncomplete (messages prev) i \<longrightarrow>
      onSentenceComplete prev =
        prev\<lparr>messages := (messages prev)[i := (messages prev ! i)\<lparr>isComplete := Some True\<rparr>]\<rparr>)
   \<and> ((\<exists>m\<in>set (messages prev). notComplete m) \<longrightarrow> (\<exists>k. oldestIncomplete (messages prev) k))
   \<and> ((\<forall>m\<in>set (messages prev). \<not> notComplete m) \<longrightarrow> onSentenceComplete prev = prev)"
proof (intro conjI impI)
  assume "oldestIncomplete (messages prev) i"
  then have "findIndex notComplete (messages prev) = Some i"
    by (simp add: findIndex_oldest)
  then show "onSentenceComplete prev =
        prev\<lparr>messages := (messages prev)[i := (messages prev ! i)\<lparr>isComplete := Some True\<rparr>]\<rparr>"
    by (simp add: onSentenceComplete_def Let_def)
next
  assume "\<exists>m\<in>set (messages prev). notComplete m"
  then obtain k where "findIndex notComplete (messages prev) = Some k"
    using findIndex_None[of notComplete "messages prev"]
    by (cases "findIndex notComplete (messages prev)") auto
  then show "\<exists>k. oldestIncomplete (messages prev) k"
    using findIndex_oldest by blast
next
  assume "\<forall>m\<in>set (messages prev). \<not> notComplete m"
  then have "findIndex notComplete (messages prev) = None"
    by (simp add: findIndex_None)
  then show "onSentenceComplete prev = prev"
    by (simp add: onSentenceComplete_def)
qed

text \<open>
  In \<open>exampleLog\<close> the user and the assistant are both mid-utterance; the signal
  completes the user's message, the older one. On the empty log it does nothing.
\<close>

theorem sentenceComplete_marks_oldest_witness:
  "oldestIncomplete exampleLog 0
   \<and> (\<exists>m\<in>set exampleLog. notComplete m)
   \<and> onSentenceComplete (initialState\<lparr>messages := exampleLog\<rparr>)
       = initialState\<lparr>messages := exampleLog[0 := (exampleLog ! 0)\<lparr>isComplete := Some True\<rparr>]\<rparr>
   \<and> onSentenceComplete initialState = initialState"
proof -
  have o: "oldestIncomplete (messages (initialState\<lparr>messages := exampleLog\<rparr>)) 0"
    by (simp add: oldestIncomplete_def exampleLog_def notComplete_def)
  have e: "\<exists>m\<in>set exampleLog. notComplete m"
    by (simp add: exampleLog_def notComplete_def)
  have n: "\<forall>m\<in>set (messages initialState). \<not> notComplete m"
    by (simp add: initialState_def)
  from sentenceComplete_marks_oldest[of "initialState\<lparr>messages := exampleLog\<rparr>" 0] o
  have 1: "onSentenceComplete (initialState\<lparr>messages := exampleLog\<rparr>)
       = initialState\<lparr>messages := exampleLog[0 := (exampleLog ! 0)\<lparr>isComplete := Some True\<rparr>]\<rparr>"
    by simp
  from sentenceComplete_marks_oldest[of initialState 0] n
  have 2: "onSentenceComplete initialState = initialState"
    by blast
  from o e 1 2 show ?thesis by simp
qed

subsection \<open>At most one incomplete message per role\<close>

lemma incompleteOf_append:
  "incompleteOf r (ms @ [m]) =
     incompleteOf r ms @ (if role m = Some r \<and> notComplete m then [m] else [])"
  by (simp add: incompleteOf_def)

lemma incompleteOf_system: "incompleteOf r (ms @ [systemMessage uuid now text]) = incompleteOf r ms"
  by (simp add: incompleteOf_append systemMessage_def)

lemma transcript_inv:
  assumes "\<And>r. length (incompleteOf r (messages prev)) \<le> 1"
  shows "length (incompleteOf r (messages (onTranscriptUpdate r' c uuid now prev))) \<le> 1"
proof (cases "findIndex (\<lambda>m. role m = Some r' \<and> notComplete m) (rev (messages prev))")
  case None
  then have "\<forall>m\<in>set (messages prev). \<not> (role m = Some r' \<and> notComplete m)"
    by (simp add: findIndex_None)
  then have "incompleteOf r' (messages prev) = []"
    by (simp add: incompleteOf_def)
  with None assms[of r] show ?thesis
    by (cases "r = r'") (simp_all add: onTranscriptUpdate_def incompleteOf_append)
next
  case (Some k)
  let ?a = "length (messages prev) - 1 - k"
  from findIndex_rev_last[OF Some] have a: "?a < length (messages prev)" by blast
  have "length (filter (\<lambda>m. role m = Some r \<and> notComplete m)
          ((messages prev)[?a := (messages prev ! ?a)\<lparr>content := c\<rparr>]))
        = length (filter (\<lambda>m. role m = Some r \<and> notComplete m) (messages prev))"
    by (rule filter_update_same) (use a in \<open>simp_all add: notComplete_def\<close>)
  with Some assms[of r] show ?thesis
    by (simp add: onTranscriptUpdate_def incompleteOf_def Let_def)
qed

lemma sentence_inv:
  assumes "length (incompleteOf r (messages prev)) \<le> 1"
  shows "length (incompleteOf r (messages (onSentenceComplete prev))) \<le> 1"
proof (cases "findIndex notComplete (messages prev)")
  case None
  with assms show ?thesis by (simp add: onSentenceComplete_def)
next
  case (Some i)
  have "length (filter (\<lambda>m. role m = Some r \<and> notComplete m)
          ((messages prev)[i := (messages prev ! i)\<lparr>isComplete := Some True\<rparr>]))
        \<le> length (filter (\<lambda>m. role m = Some r \<and> notComplete m) (messages prev))"
    by (rule filter_update_le) (simp add: notComplete_def)
  with Some assms show ?thesis
    by (simp add: onSentenceComplete_def incompleteOf_def Let_def)
qed

text \<open>The two handlers that append a \<open>system\<close> entry either return or replace the log by
  the captured one with the entry at its end.\<close>

lemma wake_messages:
  "messages (current (handleWakeWordDetected state uuid now vb)) = messages (current vb)
   \<or> messages (current (handleWakeWordDetected state uuid now vb))
       = messages state @ [systemMessage uuid now ''Wake word detected! Starting conversation...'']"
  by (simp add: handleWakeWordDetected_def)

lemma listen_messages:
  "messages (current (startWakeWordDetection state uuid now vb)) = messages (current vb)
   \<or> messages (current (startWakeWordDetection state uuid now vb))
       = messages state @ [systemMessage uuid now
            (''Listening for wake word: '' @ [CHR 0x22] @ WAKE_WORD @ [CHR 0x22])]"
  by (simp add: startWakeWordDetection_def)

lemma reachable_inv: "reachable_log ms \<Longrightarrow> length (incompleteOf r ms) \<le> 1"
proof (induction arbitrary: r rule: reachable_log.induct)
  case initial
  show ?case by (simp add: initialState_def incompleteOf_def)
next
  case (transcript prev r' c uuid now)
  then show ?case by (intro transcript_inv)
next
  case (response prev c uuid now)
  then show ?case by (simp add: onResponseUpdate_def incompleteOf_append notComplete_def)
next
  case (sentence prev)
  then show ?case by (intro sentence_inv)
next
  case (wake state vb uuid now)
  with wake_messages[of state uuid now vb] show ?case
    by (auto simp: incompleteOf_system)
next
  case (listen state vb uuid now)
  with listen_messages[of state uuid now vb] show ?case
    by (auto simp: incompleteOf_system)
qed

lemma transcript_appends:
  assumes "incompleteOf r (messages prev) = []"
  shows "messages (onTranscriptUpdate r c uuid now prev) =
           messages prev @ [\<lparr>id_msg = uuid, type = Transcription, role = Some r, content = c,
                            timestamp = now, isComplete = Some False\<rparr>]"
proof -
  from assms have "\<forall>m\<in>set (rev (messages prev)). \<not> (role m = Some r \<and> notComplete m)"
    by (simp add: incompleteOf_def filter_empty_conv)
  then have "findIndex (\<lambda>m. role m = Some r \<and> notComplete m) (rev (messages prev)) = None"
    by (simp only: findIndex_None)
  then show ?thesis by (simp add: onTranscriptUpdate_def)
qed

lemma transcript_replaces:
  assumes ne: "incompleteOf r (messages prev) \<noteq> []"
    and one: "length (incompleteOf r (messages prev)) \<le> 1"
  shows "\<exists>i<length (messages prev).
           incompleteOf r (messages prev) = [messages prev ! i]
         \<and> messages (onTranscriptUpdate r c uuid now prev) =
             (messages prev)[i := (messages prev ! i)\<lparr>content := c\<rparr>]"
proof -
  let ?P = "\<lambda>m. role m = Some r \<and> notComplete m"
  let ?ms = "messages prev"
  from ne have "\<exists>m\<in>set (rev ?ms). ?P m"
    by (simp add: incompleteOf_def filter_empty_conv)
  then obtain k where k: "findIndex ?P (rev ?ms) = Some k"
    using findIndex_None[of ?P "rev ?ms"] by (cases "findIndex ?P (rev ?ms)") auto
  let ?a = "length ?ms - 1 - k"
  from findIndex_rev_last[OF k] have a: "?a < length ?ms" and pa: "?P (?ms ! ?a)" by blast+
  from a pa have "?ms ! ?a \<in> set (incompleteOf r ?ms)"
    by (simp add: incompleteOf_def)
  moreover from ne one obtain x where "incompleteOf r ?ms = [x]"
    by (cases "incompleteOf r ?ms") auto
  ultimately have "incompleteOf r ?ms = [?ms ! ?a]" by simp
  moreover from k have "messages (onTranscriptUpdate r c uuid now prev) =
      ?ms[?a := (?ms ! ?a)\<lparr>content := c\<rparr>]"
    by (simp add: onTranscriptUpdate_def Let_def)
  ultimately show ?thesis using a by blast
qed

text \<open>
  \<^bold>\<open>Claim C5.\<close> In a reachable log every role \<open>r\<close> has at most one incomplete message, and
  the log after a transcript fragment, a response or a sentence-complete signal has at
  most one again. A fragment for a role \<open>r'\<close> that has no incomplete message appends a new
  incomplete transcription of that role; a fragment for a role that has one replaces the
  content of that message, at its position, and leaves the rest of the log alone.
\<close>

theorem one_incomplete_per_role:
  assumes "reachable_log (messages prev)"
  shows "length (incompleteOf r (messages prev)) \<le> 1
       \<and> length (incompleteOf r (messages (onTranscriptUpdate r' c uuid now prev))) \<le> 1
       \<and> length (incompleteOf r (messages (onResponseUpdate c uuid now prev))) \<le> 1
       \<and> length (incompleteOf r (messages (onSentenceComplete prev))) \<le> 1
       \<and> (incompleteOf r' (messages prev) = [] \<longrightarrow>
            messages (onTranscriptUpdate r' c uuid now prev) =
              messages prev @ [\<lparr>id_msg = uuid, type = Transcription, role = Some r', content = c,
                               timestamp = now, isComplete = Some False\<rparr>])
       \<and> (incompleteOf r' (messages prev) \<noteq> [] \<longrightarrow>
            (\<exists>i<length (messages prev).
                incompleteOf r' (messages prev) = [messages prev ! i]
              \<and> messages (onTranscriptUpdate r' c uuid now prev) =
                  (messages prev)[i := (messages prev ! i)\<lparr>content := c\<rparr>]))"
proof -
  have inv: "length (incompleteOf q (messages prev)) \<le> 1" for q
    using assms by (rule reachable_inv)
  have 1: "length (incompleteOf r (messages (onTranscriptUpdate r' c uuid now prev))) \<le> 1"
    using reachable_log.transcript[OF assms] by (rule reachable_inv)
  have 2: "length (incompleteOf r (messages (onResponseUpdate c uuid now prev))) \<le> 1"
    using reachable_log.response[OF assms] by (rule reachable_inv)
  have 3: "length (incompleteOf r (messages (onSentenceComplete prev))) \<le> 1"
    using reachable_log.sentence[OF assms] by (rule reachable_inv)
  have 4: "incompleteOf r' (messages prev) = [] \<longrightarrow>
            messages (onTranscriptUpdate r' c uuid now prev) =
              messages prev @ [\<lparr>id_msg = uuid, type = Transcription, role = Some r', content = c,
                               timestamp = now, isComplete = Some False\<rparr>]"
    using transcript_appends by blast
  have 5: "incompleteOf r' (messages prev) \<noteq> [] \<longrightarrow>
            (\<exists>i<length (messages prev).
                incompleteOf r' (messages prev) = [messages prev ! i]
              \<and> messages (onTranscriptUpdate r' c uuid now prev) =
                  (messages prev)[i := (messages prev ! i)\<lparr>content := c\<rparr>])"
    using transcript_replaces[OF _ inv] by blast
  from inv 1 2 3 4 5 show ?thesis by blast
qed

lemma exampleLog_eq:
  "exampleLog = messages (onTranscriptUpdate ''assistant'' ''hel'' ''m2'' 2
       (onTranscriptUpdate ''user'' ''hi'' ''m1'' 1 initialState))"
  by (simp add: exampleLog_def onTranscriptUpdate_def initialState_def notComplete_def)

lemma exampleLog_reachable: "reachable_log exampleLog"
  unfolding exampleLog_eq by (intro reachable_log.transcript reachable_log.initial)

text \<open>
  \<open>exampleLog\<close> is reachable. A further fragment of the user replaces the content of the
  user's message at position 0; a fragment of a role with no incomplete message is
  appended.
\<close>

theorem one_incomplete_per_role_witness:
  "reachable_log exampleLog
   \<and> length (incompleteOf ''user'' exampleLog) \<le> 1
   \<and> messages (onTranscriptUpdate ''user'' ''hi there'' ''m3'' 3 (initialState\<lparr>messages := exampleLog\<rparr>))
       = exampleLog[0 := (exampleLog ! 0)\<lparr>content := ''hi there''\<rparr>]
   \<and> messages (onTranscriptUpdate ''agent'' ''x'' ''m3'' 3 (initialState\<lparr>messages := exampleLog\<rparr>))
       = exampleLog @ [\<lparr>id_msg = ''m3'', type = Transcription, role = Some ''agent'', content = ''x'',
                         timestamp = 3, isComplete = Some False\<rparr>]"
proof -
  have r: "reachable_log (messages (initialState\<lparr>messages := exampleLog\<rparr>))"
    using exampleLog_reachable by simp
  have e1: "incompleteOf ''agent'' (messages (initialState\<lparr>messages := exampleLog\<rparr>)) = []"
    by (simp add: incompleteOf_def exampleLog_def)
  have e2: "incompleteOf ''user'' (messages (initialState\<lparr>messages := exampleLog\<rparr>)) = [exampleLog ! 0]"
    by (simp add: incompleteOf_def exampleLog_def notComplete_def)
  from one_incomplete_per_role[OF r, of "''user''" "''agent''" "''x''" "''m3''" 3] e1
  have a: "length (incompleteOf ''user'' exampleLog) \<le> 1"
    and b: "messages (onTranscriptUpdate ''agent'' ''x'' ''m3'' 3 (initialState\<lparr>messages := exampleLog\<rparr>))
       = exampleLog @ [\<lparr>id_msg = ''m3'', type = Transcription, role = Some ''agent'', content = ''x'',
                         timestamp = 3, isComplete = Some False\<rparr>]"
    by simp_all
  from one_incomplete_per_role[OF r, of "''user''" "''user''" "''hi there''" "''m3''" 3] e2
  obtain i where "[exampleLog ! 0] = [exampleLog ! i]"
    and c: "messages (onTranscriptUpdate ''user'' ''hi there'' ''m3'' 3 (initialState\<lparr>messages := exampleLog\<rparr>))
       = exampleLog[i := (exampleLog ! i)\<lparr>content := ''hi there''\<rparr>]" and "i < length exampleLog"
    by auto
  then have "i = 0" by (cases i) (auto simp: exampleLog_def less_Suc_eq)
  with c have c': "messages (onTranscriptUpdate ''user'' ''hi there'' ''m3'' 3 (initialState\<lparr>messages := exampleLog\<rparr>))
       = exampleLog[0 := (exampleLog ! 0)\<lparr>content := ''hi there''\<rparr>]" by simp
  from exampleLog_reachable a b c' show ?thesis by blast
qed

section \<open>The call hook\<close>

text \<open>
  \<^bold>\<open>Claim C3.\<close> When a call was opened at \<open>opened\<close> (a time stamp of \<open>Date.now()\<close>, which is
  not \<open>0\<close>) and less than 10000 ms have passed, \<open>endCall\<close> returns the refs unchanged and
  does nothing to the outside: no flag is set, no timer is armed (so no \<open>stopCall\<close> will
  follow from this request), and no callback runs (so no \<open>onCallEnded\<close>).
\<close>

theorem endCall_below_minimum_duration:
  "callStartTimeRef c = Some opened \<Longrightarrow> opened \<noteq> 0 \<Longrightarrow> now - opened < 10000 \<Longrightarrow>
   endCall now c = (c, [])"
  by (simp add: endCall_def truthyTime_def MIN_CALL_DURATION_MS_def)

text \<open>A call opened at 1000000, asked to end 2 seconds later.\<close>

theorem endCall_below_minimum_duration_witness:
  "endCall 1002000 (mountedClient\<lparr>callStartTimeRef := Some 1000000\<rparr>)
     = (mountedClient\<lparr>callStartTimeRef := Some 1000000\<rparr>, [])"
  using endCall_below_minimum_duration[of "mountedClient\<lparr>callStartTimeRef := Some 1000000\<rparr>" 1000000 1002000]
  by simp

text \<open>
  The button of the component sets \<open>isLoading\<close> before it calls \<open>endCall\<close>, so on the
  screen such a request is not without effect: the flag stays set.
\<close>

lemma handleEndCall_below_minimum_duration:
  "callStartTimeRef (retell vb) = Some opened \<Longrightarrow> opened \<noteq> 0 \<Longrightarrow> now - opened < 10000 \<Longrightarrow>
   handleEndCall state now vb = (vb\<lparr>current := (current vb)\<lparr>isLoading := True\<rparr>\<rparr>, [])"
  by (simp add: handleEndCall_def request_def endCall_def truthyTime_def MIN_CALL_DURATION_MS_def)

subsection \<open>The \<open>update\<close> listener\<close>

lemma trim_Nil_iff: "trim s = [] \<longleftrightarrow> list_all isWhiteSpace s"
proof -
  let ?d = "dropWhile isWhiteSpace s"
  have "(\<forall>x\<in>set ?d. isWhiteSpace x) \<longleftrightarrow> (\<forall>x\<in>set s. isWhiteSpace x)"
  proof
    assume all: "\<forall>x\<in>set ?d. isWhiteSpace x"
    have "?d = []"
    proof (rule ccontr)
      assume ne: "?d \<noteq> []"
      then have "\<not> isWhiteSpace (hd ?d)" by (rule hd_dropWhile)
      moreover from ne have "hd ?d \<in> set ?d" by simp
      ultimately show False using all by blast
    qed
    then show "\<forall>x\<in>set s. isWhiteSpace x" by (simp only: dropWhile_eq_Nil_conv)
  next
    assume "\<forall>x\<in>set s. isWhiteSpace x"
    then show "\<forall>x\<in>set ?d. isWhiteSpace x" by (meson set_dropWhileD)
  qed
  then show ?thesis
    by (simp add: trim_def list_all_iff)
qed

lemma on_update_blank:
  assumes "transcript update = Some ts" "ts \<noteq> []" "list_all isWhiteSpace (content_of (last ts))"
  shows "on_update sf now update c = (resetInactivityTimer now c, [])"
  using assms by (simp add: on_update_def Let_def trim_Nil_iff)

text \<open>
  \<^bold>\<open>Claim C9.\<close> When the last element of the transcript of an update has a content made
  of white space only (the empty content included), the listener runs no callback at
  all: neither \<open>onTranscriptUpdate\<close> nor, for a response in the same update,
  \<open>onResponseUpdate\<close>. The event leaves the component as it was, the log included; only
  the inactivity timer of the hook is reset.
\<close>

theorem blank_transcript_ignored:
  assumes "transcript update = Some ts" "ts \<noteq> []" "list_all isWhiteSpace (content_of (last ts))"
  shows "snd (on_update sf now update c) = []
       \<and> step pf (UpdateEvent update uuid uuid2 now) vb
           = (vb\<lparr>retell := resetInactivityTimer now (retell vb)\<rparr>, [])"
  using on_update_blank[OF assms] by (simp add: step_def hookCall_def)

text \<open>\<open>blankUpdate\<close> carries a response as well; the log of the mounted component stays empty.\<close>

theorem blank_transcript_ignored_witness:
  "snd (on_update (stringify examplePlatform) 7 blankUpdate mountedClient) = []
   \<and> current (fst (step examplePlatform (UpdateEvent blankUpdate ''a'' ''b'' 7) mounted))
       = initialState"
  using blank_transcript_ignored[of blankUpdate
        "[TranscriptItem ''user'' ''hi'', TranscriptItem ''agent'' ''  '']"
        "stringify examplePlatform" 7 mountedClient examplePlatform "''a''" "''b''" mounted]
  by (simp add: blankUpdate_def isWhiteSpace_def mounted_def)

subsection \<open>Speaker roles\<close>

lemma normalizeRole_cases: "normalizeRole r = ''assistant'' \<or> normalizeRole r = ''user''"
  by (simp add: normalizeRole_def)

lemma toLowerCase_char_cases:
  "toLowerCase_char c = CHR ''a'' \<longleftrightarrow> c = CHR ''a'' \<or> c = CHR ''A''"
  "toLowerCase_char c = CHR ''g'' \<longleftrightarrow> c = CHR ''g'' \<or> c = CHR ''G''"
  "toLowerCase_char c = CHR ''e'' \<longleftrightarrow> c = CHR ''e'' \<or> c = CHR ''E''"
  "toLowerCase_char c = CHR ''n'' \<longleftrightarrow> c = CHR ''n'' \<or> c = CHR ''N''"
  "toLowerCase_char c = CHR ''t'' \<longleftrightarrow> c = CHR ''t'' \<or> c = CHR ''T''"
  by (auto simp: toLowerCase_char_def)

lemma map_eq_5:
  "map f r = [a, b, c, d, e] \<longleftrightarrow>
     (\<exists>v w x y z. r = [v, w, x, y, z] \<and> f v = a \<and> f w = b \<and> f x = c \<and> f y = d \<and> f z = e)"
  by (auto simp: map_eq_Cons_conv)

lemma toLowerCase_agent: "toLowerCase r = ''agent'' \<longleftrightarrow> agentIgnoringCase r"
proof
  assume "toLowerCase r = ''agent''"
  then obtain v w x y z where r: "r = [v, w, x, y, z]"
    and "toLowerCase_char v = CHR ''a''" "toLowerCase_char w = CHR ''g''"
      "toLowerCase_char x = CHR ''e''" "toLowerCase_char y = CHR ''n''"
      "toLowerCase_char z = CHR ''t''"
    unfolding toLowerCase_def map_eq_5 by blast
  then show "agentIgnoringCase r"
    by (simp add: agentIgnoringCase_def toLowerCase_char_cases)
next
  assume a: "agentIgnoringCase r"
  then obtain v w x y z where r: "r = [v, w, x, y, z]"
    by (auto simp: agentIgnoringCase_def split: list.splits)
  with a show "toLowerCase r = ''agent''"
    by (simp add: agentIgnoringCase_def toLowerCase_def toLowerCase_char_cases)
qed

lemma normalRole_content [simp]: "normalRole (m\<lparr>content := c\<rparr>) = normalRole m"
  by (simp add: normalRole_def)

lemma normalRole_isComplete [simp]: "normalRole (m\<lparr>isComplete := b\<rparr>) = normalRole m"
  by (simp add: normalRole_def)

lemma rolesNormalized_update:
  assumes "rolesNormalized ms" "i < length ms \<Longrightarrow> normalRole y"
  shows "rolesNormalized (ms[i := y])"
proof (cases "i < length ms")
  case True
  with assms show ?thesis unfolding rolesNormalized_def by (intro list_all_update) simp_all
next
  case False
  with assms(1) show ?thesis by (simp add: list_update_beyond not_less)
qed

lemma rolesNormalized_nth: "rolesNormalized ms \<Longrightarrow> i < length ms \<Longrightarrow> normalRole (ms ! i)"
  by (simp add: rolesNormalized_def list_all_length)

lemma rolesNormalized_snoc: "rolesNormalized ms \<Longrightarrow> normalRole m \<Longrightarrow> rolesNormalized (ms @ [m])"
  by (simp add: rolesNormalized_def)

lemma rolesNormalized_system:
  "rolesNormalized ms \<Longrightarrow> rolesNormalized (ms @ [systemMessage uuid now text])"
  by (simp add: rolesNormalized_snoc normalRole_def systemMessage_def)

lemma rolesNormalized_response:
  "rolesNormalized (messages prev) \<Longrightarrow> rolesNormalized (messages (onResponseUpdate c uuid now prev))"
  by (simp add: onResponseUpdate_def rolesNormalized_snoc normalRole_def)

lemma rolesNormalized_sentence:
  assumes "rolesNormalized (messages prev)"
  shows "rolesNormalized (messages (onSentenceComplete prev))"
proof (cases "findIndex notComplete (messages prev)")
  case None
  with assms show ?thesis by (simp add: onSentenceComplete_def)
next
  case (Some i)
  have "rolesNormalized ((messages prev)[i := (messages prev ! i)\<lparr>isComplete := Some True\<rparr>])"
    using assms by (rule rolesNormalized_update) (simp add: rolesNormalized_nth[OF assms])
  with Some show ?thesis
    by (simp add: onSentenceComplete_def Let_def)
qed

lemma rolesNormalized_transcript:
  assumes "rolesNormalized (messages prev)" "r = ''user'' \<or> r = ''assistant''"
  shows "rolesNormalized (messages (onTranscriptUpdate r c uuid now prev))"
proof (cases "findIndex (\<lambda>m. role m = Some r \<and> notComplete m) (rev (messages prev))")
  case None
  have "normalRole \<lparr>id_msg = uuid, type = Transcription, role = Some r, content = c,
              timestamp = now, isComplete = Some False\<rparr>"
    using assms(2) by (simp add: normalRole_def)
  with assms(1) have "rolesNormalized (messages prev @
            [\<lparr>id_msg = uuid, type = Transcription, role = Some r, content = c,
              timestamp = now, isComplete = Some False\<rparr>])"
    by (rule rolesNormalized_snoc)
  with None show ?thesis
    by (simp add: onTranscriptUpdate_def)
next
  case (Some k)
  let ?a = "length (messages prev) - 1 - k"
  have "rolesNormalized ((messages prev)[?a := (messages prev ! ?a)\<lparr>content := c\<rparr>])"
    using assms(1) by (rule rolesNormalized_update) (simp add: rolesNormalized_nth[OF assms(1)])
  with Some show ?thesis
    by (simp add: onTranscriptUpdate_def Let_def)
qed

lemma deliver_normalized:
  assumes "channelEffect e" "rolesNormalized (messages (current vb))"
  shows "rolesNormalized (messages (current (deliver state uuid uuid2 now vb e)))"
proof (cases e)
  case (OnTranscriptUpdate r c)
  with assms(1) have "r = ''user'' \<or> r = ''assistant''" by (simp add: channelEffect_def)
  with assms(2) have "rolesNormalized (messages (onTranscriptUpdate r c uuid now (current vb)))"
    by (rule rolesNormalized_transcript)
  with OnTranscriptUpdate show ?thesis by (simp add: deliver_def)
next
  case (OnResponseUpdate c)
  with rolesNormalized_response[OF assms(2)] show ?thesis by (simp add: deliver_def)
next
  case OnSentenceComplete
  with rolesNormalized_sentence[OF assms(2)] show ?thesis by (simp add: deliver_def)
qed (use assms(1) in \<open>simp_all add: channelEffect_def\<close>)

lemma foldl_deliver_normalized:
  "list_all channelEffect out \<Longrightarrow> rolesNormalized (messages (current vb)) \<Longrightarrow>
   rolesNormalized (messages (current (foldl (deliver state uuid uuid2 now) vb out)))"
proof (induction out arbitrary: vb)
  case Nil
  then show ?case by simp
next
  case (Cons e out)
  from Cons.prems have "rolesNormalized (messages (current (deliver state uuid uuid2 now vb e)))"
    by (intro deliver_normalized) simp_all
  with Cons.prems Cons.IH[of "deliver state uuid uuid2 now vb e"] show ?case by simp
qed

text \<open>What the \<open>update\<close> listener hands to the component, by cases.\<close>

lemma on_update_out:
  "snd (on_update sf now update c) = responseUpdate sf update
   \<or> snd (on_update sf now update c) = []
   \<or> (\<exists>ts. transcript update = Some ts \<and> ts \<noteq> []
         \<and> snd (on_update sf now update c) =
             OnTranscriptUpdate (normalizeRole (role_of (last ts))) (trim (content_of (last ts)))
               # responseUpdate sf update)"
proof (cases "transcript update")
  case None
  then show ?thesis by (simp add: on_update_def)
next
  case (Some ts)
  then show ?thesis by (simp add: on_update_def Let_def)
qed

lemma responseUpdate_no_transcript: "OnTranscriptUpdate r c \<notin> set (responseUpdate sf update)"
proof (cases "response update")
  case None
  then show ?thesis by (simp add: responseUpdate_def)
next
  case (Some resp)
  then show ?thesis by (cases resp) (simp_all add: responseUpdate_def)
qed

lemma responseUpdate_channel: "list_all channelEffect (responseUpdate sf update)"
proof (cases "response update")
  case None
  then show ?thesis by (simp add: responseUpdate_def)
next
  case (Some resp)
  then show ?thesis by (cases resp) (simp_all add: responseUpdate_def channelEffect_def)
qed

lemma on_update_channel: "list_all channelEffect (snd (on_update sf now update c))"
proof -
  have t: "channelEffect (OnTranscriptUpdate (normalizeRole q) x)" for q x
    using normalizeRole_cases[of q] by (auto simp: channelEffect_def)
  from on_update_out[of sf now update c] show ?thesis
    using responseUpdate_channel[of sf update] t by (elim disjE exE conjE) simp_all
qed

lemma on_update_roles:
  assumes "OnTranscriptUpdate r c' \<in> set (snd (on_update sf now update c))"
  shows "\<exists>ts. transcript update = Some ts \<and> ts \<noteq> [] \<and> r = normalizeRole (role_of (last ts))"
  using on_update_out[of sf now update c] assms responseUpdate_no_transcript[of r c' sf update]
  by auto

lemma hookCall_current:
  "current (fst (hookCall uuid uuid2 now f vb)) =
     current (foldl (deliver (current vb) uuid uuid2 now) (vb\<lparr>retell := fst (f (retell vb))\<rparr>) (snd (f (retell vb))))"
  by (simp add: hookCall_def split: prod.splits)

lemma delivered_normalized: "delivered_log ms \<Longrightarrow> rolesNormalized ms"
proof (induction rule: delivered_log.induct)
  case d_initial
  show ?case by (simp add: initialState_def rolesNormalized_def)
next
  case (d_update vb uuid uuid2 now sf update)
  then show ?case
    by (simp add: hookCall_current foldl_deliver_normalized on_update_channel)
next
  case (d_sentence vb uuid uuid2 now)
  then show ?case
    by (simp add: hookCall_current on_sentence_complete_def deliver_def rolesNormalized_sentence)
next
  case (d_wake state vb uuid now)
  then show ?case
    by (simp add: handleWakeWordDetected_def rolesNormalized_system)
next
  case (d_listen state vb uuid now)
  then show ?case
    by (simp add: startWakeWordDetection_def rolesNormalized_system)
qed

text \<open>
  \<^bold>\<open>Claim C10.\<close> The listener maps a role that is \<open>'agent'\<close> up to the case of its letters
  to \<open>'assistant'\<close> and every other role to \<open>'user'\<close>; the role it hands to
  \<open>onTranscriptUpdate\<close> is the mapped role of the last transcript element. So in every log
  the component builds from the events of the channel, each transcription has the role
  \<open>'user'\<close> or \<open>'assistant'\<close>.
\<close>

theorem roles_normalized:
  "normalizeRole r = (if agentIgnoringCase r then ''assistant'' else ''user'')
   \<and> (OnTranscriptUpdate r' c' \<in> set (snd (on_update sf now update c)) \<longrightarrow>
        (\<exists>ts. transcript update = Some ts \<and> ts \<noteq> [] \<and> r' = normalizeRole (role_of (last ts))))
   \<and> (delivered_log ms \<longrightarrow>
        list_all (\<lambda>m. type m \<noteq> Transcription \<or> role m = Some ''user'' \<or> role m = Some ''assistant'') ms)"
proof -
  have 1: "normalizeRole r = (if agentIgnoringCase r then ''assistant'' else ''user'')"
    by (simp add: normalizeRole_def toLowerCase_agent)
  have 3: "list_all (\<lambda>m. type m \<noteq> Transcription \<or> role m = Some ''user'' \<or> role m = Some ''assistant'') ms"
    if "delivered_log ms"
    using delivered_normalized[OF that] unfolding rolesNormalized_def normalRole_def .
  from 1 on_update_roles[of r' c' sf now update c] 3 show ?thesis by blast
qed

text \<open>
  An update of the agent, written \<open>AgEnT\<close>: the listener hands \<open>assistant\<close> to the log, and
  the log it builds has normalized roles. A role that merely starts with \<open>agent\<close> is a
  user's.
\<close>

theorem roles_normalized_witness:
  "normalizeRole ''AgEnT'' = ''assistant''
   \<and> normalizeRole ''agent 2'' = ''user''
   \<and> OnTranscriptUpdate ''assistant'' ''hello''
        \<in> set (snd (on_update (stringify examplePlatform) 7 agentUpdate mountedClient))
   \<and> delivered_log agentLog
   \<and> rolesNormalized agentLog"
proof -
  have d: "delivered_log agentLog"
    unfolding agentLog_def
    by (rule delivered_log.d_update) (simp add: mounted_def delivered_log.d_initial)
  have m: "OnTranscriptUpdate ''assistant'' ''hello''
        \<in> set (snd (on_update (stringify examplePlatform) 7 agentUpdate mountedClient))"
    by (simp add: on_update_def agentUpdate_def normalizeRole_def toLowerCase_def
        toLowerCase_char_def trim_def isWhiteSpace_def responseUpdate_def)
  note t = roles_normalized[of "''AgEnT''" "''assistant''" "''hello''" "stringify examplePlatform" 7
      agentUpdate mountedClient agentLog]
  from t have 1: "normalizeRole ''AgEnT'' = ''assistant''"
    by (simp add: agentIgnoringCase_def)
  from t d have "list_all (\<lambda>m. type m \<noteq> Transcription \<or> role m = Some ''user'' \<or> role m = Some ''assistant'') agentLog"
    by blast
  then have 3: "rolesNormalized agentLog"
    by (simp only: rolesNormalized_def normalRole_def[abs_def])
  from roles_normalized[of "''agent 2''"]
  have 2: "normalizeRole ''agent 2'' = ''user''"
    by (simp add: agentIgnoringCase_def)
  from 1 2 m d 3 show ?thesis by simp
qed

lemma agentLog_value:
  "agentLog = [\<lparr>id_msg = ''a'', type = Transcription, role = Some ''assistant'', content = ''hello'',
                 timestamp = 7, isComplete = Some False\<rparr>]"
  by (simp add: agentLog_def hookCall_def on_update_def agentUpdate_def mounted_def mountedClient_def
      resetInactivityTimer_def normalizeRole_def toLowerCase_def toLowerCase_char_def trim_def
      isWhiteSpace_def responseUpdate_def deliver_def onTranscriptUpdate_def initialState_def)

section \<open>The wake-word monitor\<close>

subsection \<open>Recognition errors\<close>

lemma onerror_eq:
  "recognition_onerror now e w =
     (if e \<noteq> ''aborted'' \<and> now - lastErrorTimeRef w > 5000
      then (w\<lparr>isRecognitionActiveRef := False, lastErrorTimeRef := now\<rparr>,
            if e \<noteq> ''no-speech'' then [ErrorCallback e] else [])
      else (w\<lparr>isRecognitionActiveRef := False\<rparr>, []))"
  by (simp add: recognition_onerror_def Let_def)

text \<open>
  \<^bold>\<open>Claim C7.\<close> \<open>lastErrorTimeRef\<close> is the time of the last error the handler reported (it
  is set where the handler logs the error). An error \<open>no-speech\<close> or \<open>aborted\<close> never
  reaches \<open>onError\<close>, and \<open>handleWakeWordError\<close> would show nothing for it. Any other error
  reaches \<open>onError\<close> only if at least 5000 ms have passed since the last reported error,
  and is dropped when less than 5000 ms have passed. To the millisecond: it is handed on
  exactly when more than 5000 ms have passed, and then becomes the last reported error.
\<close>

theorem recognition_errors_filtered:
  "(e = ''no-speech'' \<or> e = ''aborted'' \<longrightarrow>
      snd (recognition_onerror now e w) = [] \<and> handleWakeWordError e = [])
   \<and> (e \<noteq> ''no-speech'' \<and> e \<noteq> ''aborted'' \<longrightarrow>
        (snd (recognition_onerror now e w) \<noteq> [] \<longrightarrow> now - lastErrorTimeRef w \<ge> 5000)
      \<and> (now - lastErrorTimeRef w < 5000 \<longrightarrow> snd (recognition_onerror now e w) = [])
      \<and> snd (recognition_onerror now e w) =
          (if now - lastErrorTimeRef w > 5000 then [ErrorCallback e] else [])
      \<and> (snd (recognition_onerror now e w) \<noteq> [] \<longrightarrow>
            lastErrorTimeRef (fst (recognition_onerror now e w)) = now))"
  by (auto simp: onerror_eq handleWakeWordError_def)

text \<open>The last error was reported at 1000: errors at 9000, at 5999 and at 6000.\<close>

theorem recognition_errors_filtered_witness:
  "snd (recognition_onerror 9000 ''no-speech'' (initialDetection\<lparr>lastErrorTimeRef := 1000\<rparr>)) = []
   \<and> snd (recognition_onerror 9000 ''aborted'' (initialDetection\<lparr>lastErrorTimeRef := 1000\<rparr>)) = []
   \<and> snd (recognition_onerror 9000 ''network'' (initialDetection\<lparr>lastErrorTimeRef := 1000\<rparr>))
       = [ErrorCallback ''network'']
   \<and> lastErrorTimeRef (fst (recognition_onerror 9000 ''network'' (initialDetection\<lparr>lastErrorTimeRef := 1000\<rparr>)))
       = 9000
   \<and> snd (recognition_onerror 5999 ''network'' (initialDetection\<lparr>lastErrorTimeRef := 1000\<rparr>)) = []
   \<and> snd (recognition_onerror 6000 ''network'' (initialDetection\<lparr>lastErrorTimeRef := 1000\<rparr>)) = []"
  using recognition_errors_filtered[of "''no-speech''" 9000 "initialDetection\<lparr>lastErrorTimeRef := 1000\<rparr>"]
    recognition_errors_filtered[of "''aborted''" 9000 "initialDetection\<lparr>lastErrorTimeRef := 1000\<rparr>"]
    recognition_errors_filtered[of "''network''" 9000 "initialDetection\<lparr>lastErrorTimeRef := 1000\<rparr>"]
    recognition_errors_filtered[of "''network''" 5999 "initialDetection\<lparr>lastErrorTimeRef := 1000\<rparr>"]
    recognition_errors_filtered[of "''network''" 6000 "initialDetection\<lparr>lastErrorTimeRef := 1000\<rparr>"]
  by simp

text \<open>What the user sees of one error event: a toast exactly when the error is handed on.\<close>

lemma error_toast_shown:
  "errorToasts (snd (recognition_onerror now e w)) =
     (if e \<noteq> ''no-speech'' \<and> e \<noteq> ''aborted'' \<and> now - lastErrorTimeRef w > 5000
      then [Toast ''Wake Word Detection Issue''
              (''There was a problem with wake word detection: '' @ e)]
      else [])"
  by (simp add: onerror_eq errorToasts_def handleWakeWordError_def)

text \<open>
  Over a whole sequence of error events, whatever their times: the errors handed to
  \<open>onError\<close> are more than 5000 ms apart, and none of them is \<open>no-speech\<close> or \<open>aborted\<close>.
\<close>

lemma onerror_run_Cons:
  "onerror_run ((now, e) # es) w =
     map (\<lambda>_. (now, e)) (snd (recognition_onerror now e w))
       @ onerror_run es (fst (recognition_onerror now e w))"
  by (simp split: prod.splits)

lemma onerror_last:
  "lastErrorTimeRef (fst (recognition_onerror now e w)) = lastErrorTimeRef w
   \<or> (lastErrorTimeRef (fst (recognition_onerror now e w)) = now \<and> now - lastErrorTimeRef w > 5000)"
  by (simp add: onerror_eq)

lemma onerror_out:
  "snd (recognition_onerror now e w) = []
   \<or> (snd (recognition_onerror now e w) = [ErrorCallback e]
       \<and> e \<noteq> ''no-speech'' \<and> e \<noteq> ''aborted''
       \<and> now - lastErrorTimeRef w > 5000
       \<and> lastErrorTimeRef (fst (recognition_onerror now e w)) = now)"
  by (simp add: onerror_eq)

lemma reported_errors_spaced:
  "l \<le> lastErrorTimeRef w \<Longrightarrow> spaced l (onerror_run es w)"
proof (induction es arbitrary: w l)
  case Nil
  show ?case by simp
next
  case (Cons a es)
  obtain now e where a: "a = (now, e)" by (cases a)
  let ?w = "fst (recognition_onerror now e w)"
  from onerror_last[of now e w] Cons.prems have le: "l \<le> lastErrorTimeRef ?w"
    by auto
  from onerror_out[of now e w] show ?case
  proof
    assume "snd (recognition_onerror now e w) = []"
    with Cons.IH[OF le] a show ?thesis by (simp only: onerror_run_Cons) simp
  next
    assume r: "snd (recognition_onerror now e w) = [ErrorCallback e]
       \<and> e \<noteq> ''no-speech'' \<and> e \<noteq> ''aborted''
       \<and> now - lastErrorTimeRef w > 5000
       \<and> lastErrorTimeRef ?w = now"
    then have "spaced now (onerror_run es ?w)" by (intro Cons.IH) simp
    moreover from r Cons.prems have "now - l > 5000" by simp
    ultimately show ?thesis using a r by (simp only: onerror_run_Cons) simp
  qed
qed

lemma reported_errors_kinds:
  "(t, e) \<in> set (onerror_run es w) \<Longrightarrow> e \<noteq> ''no-speech'' \<and> e \<noteq> ''aborted''"
proof (induction es arbitrary: w)
  case Nil
  then show ?case by simp
next
  case (Cons a es)
  obtain now e' where a: "a = (now, e')" by (cases a)
  from Cons.prems a
  have "((t, e) = (now, e') \<and> snd (recognition_onerror now e' w) \<noteq> [])
        \<or> (t, e) \<in> set (onerror_run es (fst (recognition_onerror now e' w)))"
    by (simp only: onerror_run_Cons) auto
  then show ?case
  proof
    assume "(t, e) = (now, e') \<and> snd (recognition_onerror now e' w) \<noteq> []"
    with onerror_out[of now e' w] show ?thesis by auto
  next
    assume "(t, e) \<in> set (onerror_run es (fst (recognition_onerror now e' w)))"
    then show ?thesis by (rule Cons.IH)
  qed
qed

lemma reported_errors_example:
  "onerror_run [(9000, ''network''), (12000, ''no-speech''), (15000, ''not-allowed''), (20000, ''aborted''),
     (20001, ''audio-capture'')] initialDetection
   = [(9000, ''network''), (15000, ''not-allowed''), (20001, ''audio-capture'')]"
  by (simp add: recognition_onerror_def initialDetection_def)

text \<open>A \<open>no-speech\<close> error that passes the interval is logged and renews it, so the error
  that follows within 5000 ms is dropped although the last error handed on is older.\<close>

lemma reported_errors_renewed_by_no_speech:
  "onerror_run [(9000, ''network''), (14500, ''no-speech''), (15000, ''not-allowed'')] initialDetection
   = [(9000, ''network'')]"
  by (simp add: recognition_onerror_def initialDetection_def)

subsection \<open>Restart with backoff\<close>

lemma restartDelay_values:
  "restartDelay 0 = 1000" "restartDelay 1 = 1500" "restartDelay 2 = 2250"
  "restartDelay 3 = 3375" "restartDelay 4 = 10125 / 2" "restartDelay 5 = 30375 / 4"
  "restartDelay 6 = 10000"
  by (simp_all add: restartDelay_def power_numeral_reduce)

lemma restartDelay_cap: "restartDelay n \<le> 10000"
  by (simp add: restartDelay_def)

lemma restartDelay_Suc: "restartDelay (Suc n) = min (restartDelay n * (3 / 2)) 10000"
  by (simp add: restartDelay_def min_def)

text \<open>
  When the recognition ends while the monitor is to be active and no wake word was
  detected, \<open>onend\<close> arms the restart timer with the delay \<open>min (1000 * 1.5 ^ n) 10000\<close> ms,
  \<open>n\<close> being the counter \<open>setupAttemptRef\<close>; otherwise it arms nothing. The callback of the
  timer, under the same two conditions, is \<open>startDetection\<close>.
\<close>

lemma recognition_onend_delay:
  "\<not> wakeWordDetectedRef w \<Longrightarrow> isActive \<Longrightarrow>
   restartTimerRef (recognition_onend isActive w)
     = Some (min (1000 * (3 / 2) ^ setupAttemptRef w) 10000)"
  by (simp add: recognition_onend_def restartDelay_def Let_def)

lemma recognition_onend_no_restart:
  "wakeWordDetectedRef w \<or> \<not> isActive \<Longrightarrow>
   restartTimerRef (recognition_onend isActive w) = restartTimerRef w"
  by (auto simp: recognition_onend_def Let_def)

lemma restart_timeout_restarts:
  "\<not> wakeWordDetectedRef w \<Longrightarrow> isActive \<Longrightarrow> restartTimerRef w \<noteq> None \<Longrightarrow>
   restart_timeout br isActive w = startDetection br (w\<lparr>restartTimerRef := None\<rparr>)"
  by (auto simp: restart_timeout_def)

text \<open>
  A start that succeeds sets the counter to \<open>0\<close>. A \<open>recognition.start()\<close> that throws adds
  one to the counter as \<open>startDetection\<close> found it.
\<close>

lemma startDetection_started:
  assumes "RecognitionStart \<in> set (snd (startDetection br w))"
  shows "setupAttemptRef (fst (startDetection br w)) = 0
       \<and> isRecognitionActiveRef (fst (startDetection br w))"
  using assms
  by (auto simp: startDetection_def setupRecognition_def cleanup_def safelyStopRecognition_def
      Let_def split: if_splits prod.splits)

lemma startDetection_start_failed:
  assumes "\<not> isRecognitionActiveRef w" "recognitionRef w" "startThrows br"
  shows "setupAttemptRef (fst (startDetection br w)) = Suc (setupAttemptRef w)"
  using assms by (simp add: startDetection_def Let_def)

text \<open>So a recognition that ends after a successful start is restarted after 1000 ms.\<close>

lemma restart_after_successful_start:
  assumes "RecognitionStart \<in> set (snd (startDetection br w))"
  shows "restartTimerRef (recognition_onend True (fst (startDetection br w))) = Some 1000"
  using assms
  by (auto simp: startDetection_def setupRecognition_def cleanup_def safelyStopRecognition_def
      recognition_onend_def restartDelay_def Let_def split: if_splits prod.splits)

text \<open>
  \<open>setupRecognition\<close> begins with \<open>cleanup\<close>, and \<open>cleanup\<close> sets the counter to \<open>0\<close>. The
  callback of the retry timer runs \<open>setupRecognition\<close> and then \<open>startDetection\<close>, so
  whatever the counter was, it is at most \<open>1\<close> afterwards: the limit \<open>< 5\<close> on the retries
  is never reached along this path.
\<close>

lemma setupRecognition_resets_counter:
  "setupAttemptRef (fst (fst (setupRecognition br w))) = 0"
  by (simp add: setupRecognition_def cleanup_def safelyStopRecognition_def Let_def
      split: prod.splits)

lemma retry_timeout_counter:
  "retryTimers w \<noteq> 0 \<Longrightarrow> setupAttemptRef (fst (retry_timeout br True w)) \<le> 1"
  by (simp add: retry_timeout_def startDetection_def setupRecognition_def cleanup_def
      safelyStopRecognition_def Let_def split: prod.splits)

text \<open>
  Without a speech recognition constructor every \<open>startDetection\<close> goes through
  \<open>setupRecognition\<close>: the counter is \<open>1\<close> afterwards whatever it was, and the toast of the
  \<open>first attempt\<close> is shown every time.
\<close>

lemma startDetection_unsupported:
  "\<not> isRecognitionActiveRef w \<Longrightarrow> \<not> recognitionRef w \<Longrightarrow>
   startDetection unsupportedBrowser w =
     (w\<lparr>restartTimerRef := None, wakeWordDetectedRef := False, isRecognitionActiveRef := False,
        setupAttemptRef := 1\<rparr>, [NotSupportedToast])"
  by (simp add: startDetection_def setupRecognition_def cleanup_def safelyStopRecognition_def
      unsupportedBrowser_def Let_def)

text \<open>The refs after the stop, and after any number of failed starts that follow it.\<close>

lemma failedStarts_0:
  "failedStarts 0 =
     \<lparr>recognitionRef = True, isRecognitionActiveRef = False, wakeWordDetectedRef = False,
      lastErrorTimeRef = 0, restartTimerRef = None, setupAttemptRef = 0, retryTimers = 0\<rparr>"
  by (simp add: stopDetection_def startDetection_def setupRecognition_def cleanup_def
      safelyStopRecognition_def initialDetection_def workingBrowser_def Let_def)

lemma failedStarts_Suc:
  "failedStarts (Suc n) =
     \<lparr>recognitionRef = True, isRecognitionActiveRef = False, wakeWordDetectedRef = False,
      lastErrorTimeRef = 0, restartTimerRef = None, setupAttemptRef = 1, retryTimers = 1\<rparr>"
proof (induction n)
  case 0
  have "failedStarts (Suc 0) = fst (startDetection failingBrowser (failedStarts 0))"
    by simp
  then show ?case
    by (simp only: failedStarts_0) (simp add: startDetection_def failingBrowser_def Let_def)
next
  case (Suc n)
  then show ?case
    by (simp add: retry_timeout_def startDetection_def setupRecognition_def cleanup_def
        safelyStopRecognition_def failingBrowser_def Let_def)
qed


text \<open>
  Failed starts that do not go through the retry timer are counted: a second
  \<open>startDetection\<close> that fails before the timer has fired makes the count \<open>2\<close>, and the
  restart after it is armed with 2250 ms.
\<close>

lemma failures_without_retry:
  "setupAttemptRef (fst (startDetection failingBrowser (failedStarts 1))) = 2
   \<and> restartTimerRef (recognition_onend True (fst (startDetection failingBrowser (failedStarts 1))))
       = Some 2250"
proof -
  have "failedStarts 1 = failedStarts (Suc 0)"
    by simp
  then show ?thesis
    by (simp only: failedStarts_Suc)
       (simp add: startDetection_def failingBrowser_def recognition_onend_def restartDelay_def
          Let_def power_numeral_reduce)
qed

section \<open>The controller\<close>

lemmas event_defs =
  step_def mounted_def mountedClient_def initialState_def callButton_def listenButton_def
  handleStartCall_def handleEndCall_def request_def handleWakeWordDetected_def
  handleWakeWordDetected_timeout_def detection_timeout_def onWakeWordDetected_def
  startWakeWordDetection_def stopWakeWordDetection_def defaultListen_timeout_def
  listen_timeout_def systemMessage_def hookCall_def hookCallWith_def suspend_def deliver_def
  onLoading_def onCallStarted_def onError_def onCallEnded_def
  operation_timeout_def startCall_def startCall_timeout_def startCall_fetched_def
  startCall_catch_def startCall_settled_def initializeClient_def cleanupClient_def
  resetInactivityTimer_def truthyTime_def Let_def

subsection \<open>The closures on record\<close>

text \<open>
  \<open>startCall\<close>, \<open>endCall\<close> and the callback of the inactivity timer change the closure of
  the debounce timer exactly when they pass their guards.
\<close>

lemma request_startCall:
  "operationCallbacks (fst (request state startCall vb))
     = (if isStartingCallRef (retell vb) \<or> isEndingCallRef (retell vb)
        then operationCallbacks vb else state)"
  by (simp add: request_def startCall_def)

lemma request_endCall:
  "operationCallbacks (fst (request state (endCall now) vb))
     = (if isEndingCallRef (retell vb) \<or> isStartingCallRef (retell vb)
           \<or> (truthyTime (callStartTimeRef (retell vb))
               \<and> now - the (callStartTimeRef (retell vb)) < MIN_CALL_DURATION_MS)
        then operationCallbacks vb else state)"
  by (simp add: request_def endCall_def)

lemma request_inactivity:
  "operationCallbacks (fst (request state (inactivity_timeout now) vb))
     = (if truthyTime (callStartTimeRef (retell vb))
           \<and> now - the (callStartTimeRef (retell vb)) > MIN_CALL_DURATION_MS
           \<and> \<not> isEndingCallRef (retell vb) \<and> \<not> isStartingCallRef (retell vb)
        then state else operationCallbacks vb)"
  by (auto simp add: request_def inactivity_timeout_def endCall_def Let_def MIN_CALL_DURATION_MS_def)

text \<open>
  The bodies on record are the bodies the hook counts as suspended: this holds after
  mount and every event keeps it. So a body that is resumed is resumed with the state
  that its \<open>startCall\<close> or \<open>endCall\<close> had captured.
\<close>

lemma onRecord_mounted: "onRecord mounted"
  by (simp add: onRecord_def mounted_def mountedClient_def)

lemma deliver_records [simp]:
  "retell (deliver state uuid uuid2 now vb e) = retell vb"
  "fetchCallbacks (deliver state uuid uuid2 now vb e) = fetchCallbacks vb"
  "startCallCallbacks (deliver state uuid uuid2 now vb e) = startCallCallbacks vb"
  "stopCallCallbacks (deliver state uuid uuid2 now vb e) = stopCallCallbacks vb"
  by (simp_all add: deliver_def onCallStarted_def onCallEnded_def onError_def onLoading_def
      split: Effect.splits)

lemma foldl_deliver_records [simp]:
  "retell (foldl (deliver state uuid uuid2 now) vb out) = retell vb"
  "fetchCallbacks (foldl (deliver state uuid uuid2 now) vb out) = fetchCallbacks vb"
  "startCallCallbacks (foldl (deliver state uuid uuid2 now) vb out) = startCallCallbacks vb"
  "stopCallCallbacks (foldl (deliver state uuid uuid2 now) vb out) = stopCallCallbacks vb"
  by (induction out arbitrary: vb) simp_all

lemma hookCall_onRecord:
  "onRecord vb \<Longrightarrow> sameBodies (retell vb) (fst (f (retell vb))) \<Longrightarrow>
   onRecord (fst (hookCall uuid uuid2 now f vb))"
  by (simp add: onRecord_def sameBodies_def hookCall_def split_beta)

lemma request_onRecord:
  "onRecord vb \<Longrightarrow> sameBodies (retell vb) (fst (f (retell vb))) \<Longrightarrow>
   onRecord (fst (request state f vb))"
  by (simp add: onRecord_def sameBodies_def request_def Let_def split_beta)

lemma listeners_bodies:
  "sameBodies c (fst (on_update sf now update c))"
  "sameBodies c (fst (on_sentence_complete now c))"
  "sameBodies c (fst (on_error message c))"
  "sameBodies c (fst (on_call_ended c))"
  "sameBodies c (fst (startCall c))"
  "sameBodies c (fst (endCall now c))"
  "sameBodies c (fst (inactivity_timeout now c))"
  by (simp_all add: sameBodies_def on_update_def on_sentence_complete_def on_error_def
      on_call_ended_def cleanupClient_def resetInactivityTimer_def startCall_def endCall_def
      inactivity_timeout_def Let_def split: option.splits)

lemma step_onRecord:
  assumes "onRecord vb"
  shows "onRecord (fst (step pf ev vb))"
proof (cases ev)
  case (ListenButton u t)
  with assms show ?thesis
    by (simp add: step_def listenButton_def onRecord_def stopWakeWordDetection_def
        startWakeWordDetection_def)
next
  case (CallButton t)
  with assms request_onRecord[of vb startCall "current vb"]
    request_onRecord[of vb "endCall t" "current vb"] listeners_bodies(5,6)[of "retell vb"]
  show ?thesis
    by (simp add: step_def callButton_def handleStartCall_def handleEndCall_def onRecord_def
        split_beta)
next
  case (DefaultListenTimer u t)
  with assms show ?thesis
    by (simp add: step_def defaultListen_timeout_def onRecord_def startWakeWordDetection_def)
next
  case (ListenTimer u t)
  with assms show ?thesis
    by (simp add: step_def listen_timeout_def onRecord_def startWakeWordDetection_def
        split: list.splits)
next
  case DetectionTimer
  with assms show ?thesis
    by (simp add: step_def detection_timeout_def onRecord_def)
next
  case (WakeWordDetected u t)
  with assms show ?thesis
    by (simp add: step_def onWakeWordDetected_def handleWakeWordDetected_def onRecord_def
        split: option.splits)
next
  case StartCallTimer
  show ?thesis
  proof (cases "startCallTimers vb")
    case Nil
    with StartCallTimer assms show ?thesis
      by (simp add: step_def handleWakeWordDetected_timeout_def)
  next
    case (Cons state rest)
    have "onRecord (vb\<lparr>startCallTimers := rest\<rparr>)"
      using assms by (simp add: onRecord_def)
    from request_onRecord[of "vb\<lparr>startCallTimers := rest\<rparr>" startCall state] this
      listeners_bodies(5)[of "retell vb"]
    have "onRecord (fst (request state startCall (vb\<lparr>startCallTimers := rest\<rparr>)))"
      by simp
    with StartCallTimer Cons show ?thesis
      by (simp add: step_def handleWakeWordDetected_timeout_def onRecord_def split_beta)
  qed
next
  case OperationTimer
  with assms show ?thesis
    by (auto simp: step_def hookCallWith_def suspend_def onRecord_def operation_timeout_def
        startCall_timeout_def startCall_catch_def endCall_timeout_def initializeClient_def
        cleanupClient_def Let_def split: prod.splits option.splits Operation.splits)
next
  case (InactivityTimer t)
  with assms request_onRecord[of vb "inactivity_timeout t" initialState]
    listeners_bodies(7)[of "retell vb" t]
  show ?thesis
    by (simp add: step_def)
next
  case (FetchSettled result)
  with assms show ?thesis
    by (auto simp: step_def hookCallWith_def suspend_def onRecord_def startCall_fetched_def
        startCall_catch_def cleanupClient_def Let_def
        split: prod.splits list.splits FetchResult.splits)
next
  case (StartCallSettled rejected t)
  with assms show ?thesis
    by (auto simp: step_def hookCallWith_def suspend_def onRecord_def startCall_settled_def
        startCall_catch_def cleanupClient_def resetInactivityTimer_def Let_def
        split: prod.splits list.splits option.splits)
next
  case (StopCallSettled rejected)
  with assms show ?thesis
    by (auto simp: step_def hookCallWith_def suspend_def onRecord_def endCall_settled_def
        cleanupClient_def Let_def split: prod.splits list.splits option.splits)
next
  case (UpdateEvent update u u2 t)
  with hookCall_onRecord[of vb "on_update (stringify pf) t update" u u2 t] assms
    listeners_bodies(1)[of "retell vb" "stringify pf" t update]
  show ?thesis
    by (simp add: step_def)
next
  case (SentenceCompleteEvent t)
  with hookCall_onRecord[of vb "on_sentence_complete t" "[]" "[]" t] assms
    listeners_bodies(2)[of "retell vb" t]
  show ?thesis
    by (simp add: step_def)
next
  case (ErrorEvent message)
  with hookCall_onRecord[of vb "on_error message" "[]" "[]" 0] assms
    listeners_bodies(3)[of "retell vb" message]
  show ?thesis
    by (simp add: step_def)
next
  case CallEndedEvent
  with hookCall_onRecord[of vb on_call_ended "[]" "[]" 0] assms
    listeners_bodies(4)[of "retell vb"]
  show ?thesis
    by (simp add: step_def)
qed

lemma run_onRecord: "onRecord vb \<Longrightarrow> onRecord (fst (run pf evs vb))"
proof (induction evs arbitrary: vb)
  case Nil
  then show ?case by simp
next
  case (Cons ev evs)
  from Cons.IH[OF step_onRecord[OF Cons.prems, of pf ev]] show ?case
    by (simp add: split_beta)
qed

text \<open>
  The \<open>fetch\<close> of a call started by the button is rejected. The \<open>catch\<close> block runs the
  \<open>onError\<close> of the render of the click, whose \<open>startWakeWordDetection\<close> has captured a
  state that is not loading: 1500 ms later the component listens again.
\<close>

lemma listening_resumes_after_failed_fetch:
  "isListeningForWakeWord (current (fst (run pf
        [CallButton t1, OperationTimer, FetchSettled (FetchRejected m), ListenTimer u t2] mounted)))
   \<and> error (current (fst (run pf
        [CallButton t1, OperationTimer, FetchSettled (FetchRejected m), ListenTimer u t2] mounted)))
       = Some m"
  by (simp add: event_defs)

subsection \<open>The guards, one by one\<close>

text \<open>
  \<open>startWakeWordDetection\<close> does nothing when the state it has captured shows a call that
  is active or loading; \<open>handleStartCall\<close> and \<open>handleWakeWordDetected\<close> stop the listening
  before they ask for a call.
\<close>

lemma startWakeWordDetection_guard:
  "isCallActive state \<or> isLoading state \<Longrightarrow> startWakeWordDetection state uuid now vb = vb"
  by (simp add: startWakeWordDetection_def)

lemma handleStartCall_stops_listening:
  "handleStartCall state vb = (vb, [])
   \<or> \<not> isListeningForWakeWord (current (fst (handleStartCall state vb)))"
  by (simp add: handleStartCall_def request_def split: prod.splits)

lemma handleWakeWordDetected_stops_listening:
  "handleWakeWordDetected state uuid now vb = vb
   \<or> \<not> isListeningForWakeWord (current (handleWakeWordDetected state uuid now vb))"
  by (simp add: handleWakeWordDetected_def)

text \<open>
  A result of the recognition after the wake word was detected is ignored; a detection
  while the 800 ms timer of an earlier one is armed is ignored; \<open>startCall\<close> while a start
  or an end is flagged is ignored.
\<close>

lemma onresult_after_detection:
  "wakeWordDetectedRef w \<Longrightarrow> recognition_onresult results w = (w, [])"
  by (simp add: recognition_onresult_def)

lemma handleWakeWordDetected_while_starting:
  "isStartingCallRef_vb vb \<Longrightarrow> handleWakeWordDetected state uuid now vb = vb"
  by (simp add: handleWakeWordDetected_def)

lemma startCall_while_flagged:
  "isStartingCallRef c \<or> isEndingCallRef c \<Longrightarrow> startCall c = (c, [])"
  by (simp add: startCall_def)

text \<open>
  The callback of the start timer clears \<open>isStartingCallRef\<close> in its first step:
  \<open>initializeClient\<close> runs \<open>cleanupClient\<close>, which resets both flags. So the flag is not set
  while the \<open>fetch\<close> is awaited.
\<close>

lemma startCall_timeout_clears_flag:
  "\<not> isStartingCallRef (fst (startCall_timeout c))"
  by (simp add: startCall_timeout_def initializeClient_def cleanupClient_def startCall_catch_def
      Let_def split: prod.splits)

text \<open>Three detections before the 800 ms timer fires open one call.\<close>

lemma detections_before_timer_open_once:
  "filter (\<lambda>e. e = FetchCreateCall \<or> e = StartCallSdk)
     (snd (run pf
        [DefaultListenTimer u0 t0, DetectionTimer,
         WakeWordDetected u1 t1, WakeWordDetected u2 t2, WakeWordDetected u3 t3, StartCallTimer,
         OperationTimer, FetchSettled ResponseOk] mounted))
   = [FetchCreateCall, StartCallSdk]"
  by (simp add: event_defs)

subsection \<open>Listening and calling at once\<close>

text \<open>
  \<^bold>\<open>Claim C2\<close> says that the listening flag is never set while a call is loading or
  active. The component is mounted; the user presses \<open>Start Call\<close> before the default
  listening has begun (\<open>startCall\<close> arms its 500 ms timer, \<open>isLoading\<close> is still \<open>false\<close>);
  the 1500 ms timer of the default-listening effect fires and \<open>startWakeWordDetection\<close>
  passes its guard; the 500 ms timer fires and \<open>onLoading(true)\<close> runs. Now the component
  is listening and loading; when the call is established it is listening and active.
\<close>

theorem listening_during_call:
  "isListeningForWakeWord (current (fst (run pf
        [CallButton t1, DefaultListenTimer u t2, OperationTimer] mounted)))
   \<and> isLoading (current (fst (run pf
        [CallButton t1, DefaultListenTimer u t2, OperationTimer] mounted)))
   \<and> isListeningForWakeWord (current (fst (run pf
        [CallButton t1, DefaultListenTimer u t2, OperationTimer,
         FetchSettled ResponseOk, StartCallSettled None t3] mounted)))
   \<and> isCallActive (current (fst (run pf
        [CallButton t1, DefaultListenTimer u t2, OperationTimer,
         FetchSettled ResponseOk, StartCallSettled None t3] mounted)))"
  by (simp add: event_defs)

text \<open>The same with the \<open>Listen for Wake Word\<close> button pressed within the 500 ms.\<close>

lemma listening_during_call_button:
  "isListeningForWakeWord (current (fst (run pf
        [CallButton t1, ListenButton u t2, OperationTimer] mounted)))
   \<and> isLoading (current (fst (run pf
        [CallButton t1, ListenButton u t2, OperationTimer] mounted)))"
  by (simp add: event_defs)

text \<open>
  In that state neither button does anything: the first is disabled by the active
  call, the second by the listening flag.
\<close>

lemma buttons_disabled_when_listening_and_active:
  "isListeningForWakeWord (current vb) \<Longrightarrow> isCallActive (current vb) \<Longrightarrow>
   step pf (ListenButton u t) vb = (vb, []) \<and> step pf (CallButton t) vb = (vb, [])"
  by (simp add: step_def listenButton_def callButton_def)

subsection \<open>Two detections, two calls\<close>

text \<open>
  \<^bold>\<open>Claim C4\<close> says that detections of the wake word before the call is established open
  one call. The component listens and the monitor has set up its recognition object; the
  wake word is detected; the user presses \<open>Listen for Wake Word\<close> again and the monitor
  starts the recognition again; the 800 ms timer fires, calls \<open>startCall\<close> and clears the
  component's flag; the wake word is detected a second time, while \<open>isLoading\<close> is still
  \<open>false\<close>, so a second 800 ms timer is armed; the 500 ms timer of \<open>startCall\<close> fires and
  the first \<open>fetch\<close> is sent, \<open>isStartingCallRef\<close> being cleared by \<open>cleanupClient\<close>; the second
  800 ms timer fires and \<open>startCall\<close> passes its guard; its 500 ms timer fires and
  a second \<open>fetch\<close> is sent. Both answers arrive and \<open>client.startCall\<close> runs twice.
\<close>

theorem duplicate_detection_opens_twice:
  "filter (\<lambda>e. e = FetchCreateCall \<or> e = StartCallSdk)
     (snd (run pf
        [DefaultListenTimer u0 t0, DetectionTimer,
         WakeWordDetected u1 t1, ListenButton u2 t2, DetectionTimer, StartCallTimer,
         WakeWordDetected u3 t3, OperationTimer, StartCallTimer, OperationTimer,
         FetchSettled ResponseOk, FetchSettled ResponseOk] mounted))
   = [FetchCreateCall, FetchCreateCall, StartCallSdk, StartCallSdk]"
  by (simp add: event_defs)

text \<open>
  The second detection runs the handler that the recognition object has kept since it
  was set up, so the log it writes is the log of that render with one entry added: the
  entry of the first detection is lost.
\<close>

lemma duplicate_detection_log:
  "messages (current (fst (run pf
        [DefaultListenTimer u0 t0, DetectionTimer,
         WakeWordDetected u1 t1, ListenButton u2 t2, DetectionTimer, StartCallTimer,
         WakeWordDetected u3 t3, OperationTimer, StartCallTimer, OperationTimer,
         FetchSettled ResponseOk, FetchSettled ResponseOk] mounted)))
   = [systemMessage u0 t0 (''Listening for wake word: '' @ [CHR 0x22] @ WAKE_WORD @ [CHR 0x22]),
      systemMessage u3 t3 ''Wake word detected! Starting conversation...'']"
  by (simp add: event_defs)

end
